theory Spec2Isabelle
  imports Complex_Main
begin

section \<open>Values of the JavaScript source\<close>

text \<open>
  A property of a request object is absent (\<open>undefined\<close>), \<open>null\<close> or a value; the source
  tells the three apart (\<open>x !== undefined\<close>, \<open>x || d\<close>, \<open>x ? a : b\<close>), so the model does too.
  Numbers are modelled as \<open>int\<close> (JavaScript numbers in the range where integers are exact;
  amounts of money in the smallest unit), instants as milliseconds since the epoch.
  Free text (names of events, descriptions, notes, search terms) is a list of UTF-16 code
  units, as a JavaScript string is; the values of enums, labels and messages, which are
  ASCII, are \<open>string\<close>.
\<close>

type_synonym ustring = "nat list"

definition utf16 :: "string \<Rightarrow> ustring" where
  "utf16 s = map of_char s"

datatype 'a jsval = Undefined | Null | Val 'a

text \<open>JavaScript truthiness of a number, of a string, and of a date (a date string or object).\<close>

fun truthy_num :: "int jsval \<Rightarrow> bool" where
  "truthy_num (Val n) = (n \<noteq> 0)"
| "truthy_num _ = False"

fun truthy_str :: "ustring jsval \<Rightarrow> bool" where
  "truthy_str (Val s) = (s \<noteq> [])"
| "truthy_str _ = False"

fun truthy_time :: "int jsval \<Rightarrow> bool" where
  "truthy_time (Val t) = True"
| "truthy_time _ = False"

text \<open>\<open>x || d\<close> on numbers.\<close>

fun num_or :: "int jsval \<Rightarrow> int \<Rightarrow> int" where
  "num_or (Val n) d = (if n \<noteq> 0 then n else d)"
| "num_or _ d = d"

text \<open>\<open>x || d\<close> on a nullable column read back from the store.\<close>

fun col_or :: "int option \<Rightarrow> int \<Rightarrow> int" where
  "col_or (Some n) d = (if n \<noteq> 0 then n else d)"
| "col_or None d = d"

text \<open>\<open>x ? Number(x) : null\<close>.\<close>

fun num_or_null :: "int jsval \<Rightarrow> int option" where
  "num_or_null (Val n) = (if n \<noteq> 0 then Some n else None)"
| "num_or_null _ = None"

fun time_or_null :: "int jsval \<Rightarrow> int option" where
  "time_or_null (Val t) = Some t"
| "time_or_null _ = None"

text \<open>
  \<open>String.prototype.trim\<close> strips the code units of WhiteSpace and LineTerminator from both
  ends: TAB, LF, VT, FF, CR, SP, NBSP (U+00A0), U+1680, U+2000 to U+200A, U+2028, U+2029,
  U+202F, U+205F, U+3000 and U+FEFF.
\<close>

definition is_space :: "nat \<Rightarrow> bool" where
  "is_space c =
     (c \<in> set [9, 10, 11, 12, 13, 32, 160, 5760, 8232, 8233, 8239, 8287, 12288, 65279]
      \<or> (8192 \<le> c \<and> c \<le> 8202))"

definition trim :: "ustring \<Rightarrow> ustring" where
  "trim s = rev (dropWhile is_space (rev (dropWhile is_space s)))"

text \<open>\<open>s?.trim() || null\<close>.\<close>

fun trim_or_null :: "ustring jsval \<Rightarrow> ustring option" where
  "trim_or_null (Val s) = (if trim s \<noteq> [] then Some (trim s) else None)"
| "trim_or_null _ = None"

definition ms_per_hour :: int where
  "ms_per_hour = 3600 * 1000"

section \<open>The result envelope\<close>

text \<open>
  Modelled from the spec: \<open>createValidationResult\<close> (utils/validation.js) is not among the
  sources; section 6 describes the envelope it builds: a success flag, a list of error
  strings and an optional data payload. The callers under src/ read exactly the fields
  \<open>isValid\<close>, \<open>errors\<close> and \<open>data\<close>.
\<close>

record 'd validation_result =
  isValid :: bool
  errors :: "string list"
  data :: "'d option"

definition createValidationResult :: "bool \<Rightarrow> string list \<Rightarrow> 'd option \<Rightarrow> 'd validation_result" where
  "createValidationResult ok errs d = \<lparr>isValid = ok, errors = errs, data = d\<rparr>"

text \<open>An exception of the source carries a message; \<open>handleError\<close> turns it into a negative result.\<close>

datatype exn = TypeError string | StoreError string | NotifierError string

fun message :: "exn \<Rightarrow> string" where
  "message (TypeError m) = m"
| "message (StoreError m) = m"
| "message (NotifierError m) = m"

definition handleError :: "exn \<Rightarrow> 'd validation_result" where
  "handleError e = createValidationResult False [message e] None"

section \<open>The store\<close>

datatype event_status =
  PENDING | ACCEPTED | CONFIRMED | IN_PROGRESS | COMPLETED | CANCELLED | RESCHEDULED

text \<open>\<open>EVENT_STATUSES.includes(s)\<close>, with the status a member names.\<close>

definition EVENT_STATUSES :: "(string \<times> event_status) list" where
  "EVENT_STATUSES =
     [(''PENDING'', PENDING), (''ACCEPTED'', ACCEPTED), (''CONFIRMED'', CONFIRMED),
      (''IN_PROGRESS'', IN_PROGRESS), (''COMPLETED'', COMPLETED), (''CANCELLED'', CANCELLED),
      (''RESCHEDULED'', RESCHEDULED)]"

definition parse_status :: "string \<Rightarrow> event_status option" where
  "parse_status s = map_of EVENT_STATUSES s"

record event =
  event_id :: int
  event_name :: ustring
  description :: "ustring option"
  start_time :: "int option"
  end_time :: "int option"
  event_date :: int
  estimated_cost :: int
  final_cost :: "int option"
  room_service_fee :: "int option"
  status :: event_status
  account_id :: "int option"
  room_id :: "int option"
  event_type_id :: "int option"

record event_service =
  event_service_id :: int
  es_event_id :: int
  es_service_id :: int
  es_variation_id :: "int option"
  es_quantity :: int
  es_custom_price :: "int option"
  es_notes :: "ustring option"
  es_status :: string
  es_scheduled_time :: "int option"
  es_duration_hours :: "int option"

record invoice =
  invoice_id :: int
  invoice_number :: int
  total_amount :: int
  inv_event_id :: int
  inv_account_id :: "int option"
  inv_status :: string
  issue_date :: int
  due_date :: int

datatype item_type = ROOM | SERVICE

record invoice_detail =
  det_invoice_id :: int
  item_name :: string
  det_quantity :: int
  unit_price :: "int option"
  subtotal :: "int option"
  det_item_type :: item_type
  det_service_id :: "int option"
  det_variation_id :: "int option"

record room =
  r_room_id :: int
  room_name :: string
  r_is_active :: bool
  r_status :: string
  r_base_price :: "int option"
  hourly_rate :: "int option"

record variation =
  v_variation_id :: int
  variation_name :: string
  v_is_active :: bool
  v_base_price :: "int option"

record event_type =
  type_id :: int
  t_is_active :: bool

record payment =
  payment_id :: int
  pay_event_id :: int

record review =
  review_id :: int
  rev_event_id :: int

record db =
  accounts :: "int list"
  rooms :: "room list"
  eventTypes :: "event_type list"
  variations :: "variation list"
  events :: "event list"
  eventServices :: "event_service list"
  invoices :: "invoice list"
  invoiceDetails :: "invoice_detail list"
  payments :: "payment list"
  reviews :: "review list"
  next_event_id :: int
  next_event_service_id :: int
  next_invoice_id :: int

text \<open>\<open>findUnique\<close> on a primary key.\<close>

definition find_event :: "db \<Rightarrow> int \<Rightarrow> event option" where
  "find_event d i = find (\<lambda>e. event_id e = i) (events d)"

definition find_room :: "db \<Rightarrow> int \<Rightarrow> room option" where
  "find_room d i = find (\<lambda>r. r_room_id r = i) (rooms d)"

definition find_variation :: "db \<Rightarrow> int \<Rightarrow> variation option" where
  "find_variation d i = find (\<lambda>v. v_variation_id v = i) (variations d)"

definition find_event_type :: "db \<Rightarrow> int \<Rightarrow> event_type option" where
  "find_event_type d i = find (\<lambda>t. type_id t = i) (eventTypes d)"

section \<open>checkVariationAvailability\<close>

text \<open>The columns \<open>select\<close> keeps of a candidate row.\<close>

record candidate =
  c_event_service_id :: int
  c_scheduled_time :: "int option"
  c_duration_hours :: "int option"

definition select_candidate :: "event_service \<Rightarrow> candidate" where
  "select_candidate es =
     \<lparr>c_event_service_id = event_service_id es,
      c_scheduled_time = es_scheduled_time es,
      c_duration_hours = es_duration_hours es\<rparr>"

text \<open>
  The \<open>where\<close> clause of the candidate query: same variation, status CONFIRMED, and a stored
  start not after the proposed end (a row with no start never satisfies \<open>lte\<close>).
\<close>

definition candidate_where :: "int \<Rightarrow> int \<Rightarrow> event_service \<Rightarrow> bool" where
  "candidate_where vid endTime es =
     (es_variation_id es = Some vid \<and> es_status es = ''CONFIRMED'' \<and>
      (case es_scheduled_time es of None \<Rightarrow> False | Some t \<Rightarrow> t \<le> endTime))"

text \<open>The filter callback: \<open>new Date(null)\<close> is the epoch, \<open>ev.duration_hours || 0\<close>.\<close>

definition evStart :: "candidate \<Rightarrow> int" where
  "evStart ev = (case c_scheduled_time ev of None \<Rightarrow> 0 | Some t \<Rightarrow> t)"

definition evEnd :: "candidate \<Rightarrow> int" where
  "evEnd ev = evStart ev + col_or (c_duration_hours ev) 0 * ms_per_hour"

definition is_conflicting :: "int \<Rightarrow> int \<Rightarrow> candidate \<Rightarrow> bool" where
  "is_conflicting startTime endTime ev = (startTime < evEnd ev \<and> endTime > evStart ev)"


record pagination =
  pg_page :: int
  pg_limit :: int
  totalCount :: nat
  totalPages :: "int option"
  hasNextPage :: bool
  hasPreviousPage :: bool

text \<open>
  What the \<open>data\<close> of a result holds. The rows joined in by \<open>include\<close> (account, room and
  event type summaries) are read-only projections and are left out; the count of service
  lines the source adds to an event is kept.
\<close>

datatype payload =
    ConflictingEvents "candidate list"
  | VariationOk int
  | EventData event nat
  | EventPage "(event \<times> nat) list" pagination
  | DeleteBlocked nat nat nat bool
  | Deleted int nat nat nat nat

definition checkVariationAvailability ::
  "db \<Rightarrow> int jsval \<Rightarrow> int jsval \<Rightarrow> int jsval \<Rightarrow> payload validation_result" where
  "checkVariationAvailability tx variation_id scheduled_time duration_hours =
     (case (variation_id, scheduled_time, duration_hours) of
        (Val vid, Val startTime, Val dur) \<Rightarrow>
          if vid = 0 \<or> dur = 0 then
            createValidationResult False
              [''Variation ID, scheduled time, and duration are required''] None
          else
            let endTime = startTime + dur * ms_per_hour in
            (case find_variation tx vid of
               None \<Rightarrow> createValidationResult False [''Variation not found or inactive''] None
             | Some v \<Rightarrow>
                 if v_is_active v then
                   let candidates = map select_candidate
                         (filter (candidate_where vid endTime) (eventServices tx));
                       conflictingEvents = filter (is_conflicting startTime endTime) candidates
                   in if length conflictingEvents > 0 then
                        createValidationResult False
                          [''Variation is busy during the requested time slot'']
                          (Some (ConflictingEvents conflictingEvents))
                      else createValidationResult True [] (Some (VariationOk vid))
                 else createValidationResult False [''Variation not found or inactive''] None)
      | _ \<Rightarrow>
          createValidationResult False
            [''Variation ID, scheduled time, and duration are required''] None)"


section \<open>Requests and collaborators\<close>

record service_line =
  sl_service_id :: "int jsval"
  sl_variation_id :: "int jsval"
  sl_quantity :: "int jsval"
  sl_custom_price :: "int jsval"
  sl_notes :: "ustring jsval"
  sl_status :: "string jsval"
  sl_scheduled_time :: "int jsval"
  sl_duration_hours :: "int jsval"

record event_input =
  in_event_name :: "ustring jsval"
  in_description :: "ustring jsval"
  in_start_time :: "int jsval"
  in_end_time :: "int jsval"
  in_event_date :: "int jsval"
  in_estimated_cost :: "int jsval"
  in_final_cost :: "int jsval"
  in_room_service_fee :: "int jsval"
  in_account_id :: "int jsval"
  in_room_id :: "int jsval"
  in_event_type_id :: "int jsval"
  in_status :: "string jsval"
  in_event_services :: "service_line list"
  in_duration_hours :: "int jsval"

record notification =
  n_account_id :: int
  n_title :: string
  n_message :: ustring
  n_type :: string

record user =
  role :: string
  u_account_id :: "int option"

record filters =
  f_account_id :: "int jsval"
  f_room_id :: "int jsval"
  f_event_type_id :: "int jsval"
  f_status :: "string jsval"
  dateMin :: "int jsval"
  dateMax :: "int jsval"
  search :: "ustring jsval"
  f_page :: "int option"
  f_limit :: "int option"
  sortBy :: string
  sortOrder :: string
  includeEventServices :: bool

text \<open>What \<open>checkRoomAvailability\<close> answers: the room is free, or it is not, with an optional reason.\<close>

datatype room_availability = RoomFree | RoomBusy "string option"

text \<open>
  The helpers this file imports from modules that are not among the sources
  (utils/validation.js, room.service.js, event_service.service.js, utils/notification.js),
  the clock and the store's own string matching and ordering are parameters of the model:
  \<^item> \<open>validateString v label\<close>, \<open>validateNumber v label\<close>, \<open>validateDateRange s e\<close> and
    \<open>validateEventServiceData line\<close> give the error messages of a value;
  \<^item> \<open>parseAndValidateId x\<close> is the number the helper yields, \<open>None\<close> when what it yields is
    not a number;
  \<^item> \<open>validatePagination page limit\<close> gives the page and limit to use and the errors;
  \<^item> \<open>checkRoomAvailability tx room start hours exclude\<close> reads the store;
  \<^item> \<open>createNotification n\<close> is \<open>None\<close> when the call resolves and \<open>Some e\<close> when it rejects
    with \<open>e\<close>;
  \<^item> \<open>startOfDay t\<close> is \<open>setHours(0, 0, 0, 0)\<close> on the instant \<open>t\<close> (local midnight);
  \<^item> \<open>now\<close> is \<open>Date.now()\<close>;
  \<^item> \<open>contains_insensitive hay needle\<close> is the store's \<open>contains\<close> with mode insensitive;
  \<^item> \<open>order_rows field direction rows\<close> is the store's \<open>orderBy\<close>.
\<close>

record env =
  validateString :: "ustring jsval \<Rightarrow> string \<Rightarrow> string list"
  validateNumber :: "int jsval \<Rightarrow> string \<Rightarrow> string list"
  validateDateRange :: "int jsval \<Rightarrow> int jsval \<Rightarrow> string list"
  validateEventServiceData :: "service_line \<Rightarrow> string list"
  parseAndValidateId :: "int \<Rightarrow> int option"
  validatePagination :: "int \<Rightarrow> int \<Rightarrow> int \<times> int \<times> string list"
  checkRoomAvailability :: "db \<Rightarrow> int \<Rightarrow> int \<Rightarrow> int \<Rightarrow> int option \<Rightarrow> room_availability"
  createNotification :: "notification \<Rightarrow> exn option"
  startOfDay :: "int \<Rightarrow> int"
  now :: int
  contains_insensitive :: "ustring \<Rightarrow> ustring \<Rightarrow> bool"
  order_rows :: "string \<Rightarrow> string \<Rightarrow> event list \<Rightarrow> event list"

text \<open>\<open>Number(x)\<close>: \<open>None\<close> stands for NaN, which the store refuses.\<close>

fun to_number :: "int jsval \<Rightarrow> int option" where
  "to_number (Val n) = Some n"
| "to_number Null = Some 0"
| "to_number Undefined = None"

section \<open>validateEventData and buildSortOrder\<close>

definition validate_id :: "env \<Rightarrow> int jsval \<Rightarrow> string \<Rightarrow> string list" where
  "validate_id en x msg =
     (case x of
        Val n \<Rightarrow> if n = 0 then []
                 else (case parseAndValidateId en n of None \<Rightarrow> [msg] | Some _ \<Rightarrow> [])
      | _ \<Rightarrow> [])"

definition validateEventData :: "env \<Rightarrow> event_input \<Rightarrow> string list" where
  "validateEventData en eventData =
     validateString en (in_event_name eventData) ''Event name''
     @ validateDateRange en (in_start_time eventData) (in_end_time eventData)
     @ (if truthy_str (in_description eventData)
        then validateString en (in_description eventData) ''Description'' else [])
     @ (if truthy_num (in_estimated_cost eventData)
        then validateNumber en (in_estimated_cost eventData) ''Estimated cost'' else [])
     @ (if truthy_num (in_final_cost eventData)
        then validateNumber en (in_final_cost eventData) ''Final cost'' else [])
     @ (if truthy_num (in_room_service_fee eventData)
        then validateNumber en (in_room_service_fee eventData) ''Room service fee'' else [])
     @ validate_id en (in_account_id eventData) ''Invalid account ID''
     @ validate_id en (in_room_id eventData) ''Invalid room ID''
     @ validate_id en (in_event_type_id eventData) ''Invalid event type ID''
     @ (case in_status eventData of
          Val s \<Rightarrow> if s = [] then []
                   else (case parse_status s of None \<Rightarrow> [''Invalid event status''] | Some _ \<Rightarrow> [])
        | _ \<Rightarrow> [])"

definition to_lower_char :: "char \<Rightarrow> char" where
  "to_lower_char c =
     (case map_of (zip ''ABCDEFGHIJKLMNOPQRSTUVWXYZ'' ''abcdefghijklmnopqrstuvwxyz'') c of
        None \<Rightarrow> c
      | Some l \<Rightarrow> l)"

definition toLowerCase :: "string \<Rightarrow> string" where
  "toLowerCase s = map to_lower_char s"

definition validSortFields :: "string list" where
  "validSortFields =
     [''event_name'', ''start_time'', ''end_time'', ''estimated_cost'', ''final_cost'',
      ''room_service_fee'', ''date_create'', ''status'']"

definition buildSortOrder :: "string \<Rightarrow> string \<Rightarrow> string \<times> string" where
  "buildSortOrder sb so =
     (if sb \<in> set validSortFields then sb else ''date_create'',
      if toLowerCase so \<in> set [''asc'', ''desc''] then toLowerCase so else ''asc'')"

section \<open>toggleEventStatus\<close>

text \<open>\<open>event.update\<close> with a \<open>where\<close> on the primary key.\<close>

definition update_event :: "int \<Rightarrow> (event \<Rightarrow> event) \<Rightarrow> db \<Rightarrow> db" where
  "update_event i f d = d\<lparr>events := map (\<lambda>e. if event_id e = i then f e else e) (events d)\<rparr>"

text \<open>
  An id \<open>parseAndValidateId\<close> does not turn into a number never reaches a row: the call
  ends in the \<open>catch\<close> of the function, with the store untouched.
\<close>

definition invalid_id :: "payload validation_result" where
  "invalid_id = handleError (TypeError ''Invalid ID'')"

definition toggleEventStatus :: "env \<Rightarrow> db \<Rightarrow> int \<Rightarrow> payload validation_result \<times> db" where
  "toggleEventStatus en d eventId =
     (case parseAndValidateId en eventId of
        None \<Rightarrow> (invalid_id, d)
      | Some validEventId \<Rightarrow>
          (case find_event d validEventId of
             None \<Rightarrow> (createValidationResult False [''Event not found''] None, d)
           | Some ev \<Rightarrow>
               let newStatus = (if status ev = PENDING then CONFIRMED else PENDING);
                   updatedEvent = ev\<lparr>status := newStatus\<rparr>
               in (createValidationResult True [] (Some (EventData updatedEvent 0)),
                   update_event validEventId (\<lambda>e. e\<lparr>status := newStatus\<rparr>) d)))"

section \<open>deleteEvent\<close>

text \<open>A number in a template string: its decimal digits.\<close>

definition digit_char :: "nat \<Rightarrow> char" where
  "digit_char n = ''0123456789'' ! n"

fun decimal :: "nat \<Rightarrow> string" where
  "decimal n = (if n < 10 then [digit_char n] else decimal (n div 10) @ [digit_char (n mod 10)])"

definition blocked_message :: "nat \<Rightarrow> nat \<Rightarrow> nat \<Rightarrow> bool \<Rightarrow> string" where
  "blocked_message services pays revs hasInvoice =
     ''Cannot delete event. It has '' @ decimal services @ '' services, '' @ decimal pays
     @ '' payments, '' @ decimal revs @ '' reviews, and '' @ (if hasInvoice then ''1'' else ''0'')
     @ '' invoice. Use forceDelete to delete anyway.''"

definition deleteEvent :: "env \<Rightarrow> db \<Rightarrow> int \<Rightarrow> bool \<Rightarrow> payload validation_result \<times> db" where
  "deleteEvent en d eventId forceDelete =
     (case parseAndValidateId en eventId of
        None \<Rightarrow> (invalid_id, d)
      | Some validEventId \<Rightarrow>
          (case find_event d validEventId of
             None \<Rightarrow> (createValidationResult False [''Event not found''] None, d)
           | Some existingEvent \<Rightarrow>
               let event_services = filter (\<lambda>s. es_event_id s = validEventId) (eventServices d);
                   inv = find (\<lambda>i. inv_event_id i = validEventId) (invoices d);
                   pays = filter (\<lambda>p. pay_event_id p = validEventId) (payments d);
                   revs = filter (\<lambda>r. rev_event_id r = validEventId) (reviews d);
                   hasInvoice = (case inv of None \<Rightarrow> False | Some _ \<Rightarrow> True);
                   hasDependencies =
                     (length event_services > 0 \<or> hasInvoice \<or> length pays > 0 \<or> length revs > 0)
               in if hasDependencies \<and> \<not> forceDelete then
                    (createValidationResult False
                       [blocked_message (length event_services) (length pays) (length revs) hasInvoice]
                       (Some (DeleteBlocked (length event_services) (length pays) (length revs)
                                hasInvoice)),
                     d)
                  else
                    let d1 =
                          (if forceDelete then
                             let a = d\<lparr>eventServices :=
                                        filter (\<lambda>s. es_event_id s \<noteq> validEventId) (eventServices d)\<rparr>;
                                 b = a\<lparr>payments :=
                                        filter (\<lambda>p. pay_event_id p \<noteq> validEventId) (payments a)\<rparr>;
                                 c = b\<lparr>reviews :=
                                        filter (\<lambda>r. rev_event_id r \<noteq> validEventId) (reviews b)\<rparr>
                             in (case inv of
                                   None \<Rightarrow> c
                                 | Some i \<Rightarrow>
                                     c\<lparr>invoiceDetails :=
                                          filter (\<lambda>x. det_invoice_id x \<noteq> invoice_id i)
                                            (invoiceDetails c),
                                        invoices :=
                                          filter (\<lambda>x. invoice_id x \<noteq> invoice_id i) (invoices c)\<rparr>)
                           else d);
                        d2 = d1\<lparr>events := filter (\<lambda>e. event_id e \<noteq> validEventId) (events d1)\<rparr>
                    in (createValidationResult True []
                          (Some (Deleted validEventId
                                   (if forceDelete then length event_services else 0)
                                   (if forceDelete then length pays else 0)
                                   (if forceDelete then length revs else 0)
                                   (if forceDelete \<and> hasInvoice then 1 else 0))),
                        d2)))"

section \<open>getAllEvents\<close>

text \<open>An id filter: absent when the value is falsy, else the number the helper yields.\<close>

definition id_filter :: "env \<Rightarrow> int jsval \<Rightarrow> exn + int option" where
  "id_filter en x =
     (case x of
        Val n \<Rightarrow> if n = 0 then Inr None
                 else (case parseAndValidateId en n of
                         None \<Rightarrow> Inl (StoreError ''Invalid value for an id filter'')
                       | Some i \<Rightarrow> Inr (Some i))
      | _ \<Rightarrow> Inr None)"

definition status_filter :: "string jsval \<Rightarrow> exn + event_status option" where
  "status_filter x =
     (case x of
        Val s \<Rightarrow> if s = [] then Inr None
                 else (case parse_status s of
                         None \<Rightarrow> Inl (StoreError ''Invalid value for the status filter'')
                       | Some st \<Rightarrow> Inr (Some st))
      | _ \<Rightarrow> Inr None)"

definition opt_matches :: "'a option \<Rightarrow> 'a \<Rightarrow> bool" where
  "opt_matches w v = (case w of None \<Rightarrow> True | Some x \<Rightarrow> x = v)"

definition start_in_range :: "int jsval \<Rightarrow> int jsval \<Rightarrow> int option \<Rightarrow> bool" where
  "start_in_range lo hi st =
     ((case lo of Val a \<Rightarrow> (case st of None \<Rightarrow> False | Some t \<Rightarrow> a \<le> t) | _ \<Rightarrow> True) \<and>
      (case hi of Val b \<Rightarrow> (case st of None \<Rightarrow> False | Some t \<Rightarrow> t \<le> b) | _ \<Rightarrow> True))"

definition search_matches :: "env \<Rightarrow> ustring jsval \<Rightarrow> event \<Rightarrow> bool" where
  "search_matches en q e =
     (case q of
        Val s \<Rightarrow>
          if trim s = [] then True
          else (contains_insensitive en (event_name e) (trim s) \<or>
                (case description e of
                   None \<Rightarrow> False
                 | Some dsc \<Rightarrow> contains_insensitive en dsc (trim s)))
      | _ \<Rightarrow> True)"

text \<open>
  \<open>findMany\<close> with \<open>skip\<close> and \<open>take\<close>: a negative \<open>skip\<close> is refused by the store, a negative
  \<open>take\<close> counts from the end of the ordered rows.
\<close>

definition skip_take :: "int \<Rightarrow> int \<Rightarrow> 'a list \<Rightarrow> exn + 'a list" where
  "skip_take sk tk rows =
     (if sk < 0 then Inl (StoreError ''Invalid value for skip'')
      else if 0 \<le> tk then Inr (take (nat tk) (drop (nat sk) rows))
      else Inr (rev (take (nat (- tk)) (drop (nat sk) (rev rows)))))"

text \<open>
  \<open>Math.ceil(totalCount / validLimit)\<close>: a number for a non-zero limit (the quotient of two
  integers in the exact range has the ceiling of the rational quotient); with a zero limit
  the division gives Infinity or NaN, which is \<open>None\<close> here.
\<close>

definition total_pages :: "nat \<Rightarrow> int \<Rightarrow> int option" where
  "total_pages n l =
     (if l = 0 then None else Some \<lceil>(of_nat n :: rat) / (of_int l :: rat)\<rceil>)"

definition page_before :: "int \<Rightarrow> nat \<Rightarrow> int \<Rightarrow> bool" where
  "page_before p n l =
     (case total_pages n l of None \<Rightarrow> 0 < n | Some tp \<Rightarrow> p < tp)"

definition getAllEvents :: "env \<Rightarrow> db \<Rightarrow> filters \<Rightarrow> payload validation_result" where
  "getAllEvents en d fl =
     (let page = (case f_page fl of None \<Rightarrow> 1 | Some p \<Rightarrow> p);
          limit = (case f_limit fl of None \<Rightarrow> 20 | Some l \<Rightarrow> l)
      in case validatePagination en page limit of
           (validPage, validLimit, paginationErrors) \<Rightarrow>
             if length paginationErrors > 0 then createValidationResult False paginationErrors None
             else
               (case id_filter en (f_account_id fl) of Inl e \<Rightarrow> handleError e | Inr w_account \<Rightarrow>
               (case id_filter en (f_room_id fl) of Inl e \<Rightarrow> handleError e | Inr w_room \<Rightarrow>
               (case id_filter en (f_event_type_id fl) of Inl e \<Rightarrow> handleError e | Inr w_type \<Rightarrow>
               (case status_filter (f_status fl) of Inl e \<Rightarrow> handleError e | Inr w_status \<Rightarrow>
                 let matching = filter (\<lambda>e.
                         (case w_account of None \<Rightarrow> True | Some a \<Rightarrow> account_id e = Some a) \<and>
                         (case w_room of None \<Rightarrow> True | Some r \<Rightarrow> room_id e = Some r) \<and>
                         (case w_type of None \<Rightarrow> True | Some t \<Rightarrow> event_type_id e = Some t) \<and>
                         opt_matches w_status (status e) \<and>
                         start_in_range (dateMin fl) (dateMax fl) (start_time e) \<and>
                         search_matches en (search fl) e) (events d);
                     skip = (validPage - 1) * validLimit;
                     orderBy = buildSortOrder (sortBy fl) (sortOrder fl);
                     ordered = order_rows en (fst orderBy) (snd orderBy) matching
                 in (case skip_take skip validLimit ordered of
                       Inl e \<Rightarrow> handleError e
                     | Inr found \<Rightarrow>
                         let totalCount = length matching;
                             processedEvents = map (\<lambda>e.
                               (e, if includeEventServices fl
                                   then length (filter (\<lambda>s. es_event_id s = event_id e) (eventServices d))
                                   else 0)) found
                         in createValidationResult True []
                              (Some (EventPage processedEvents
                                 \<lparr>pg_page = validPage, pg_limit = validLimit,
                                  totalCount = totalCount,
                                  totalPages = total_pages totalCount validLimit,
                                  hasNextPage = page_before validPage totalCount validLimit,
                                  hasPreviousPage = (validPage > 1)\<rparr>))))))))"

section \<open>Cost of the room and of the service lines\<close>

definition fail :: "string \<Rightarrow> payload validation_result" where
  "fail msg = createValidationResult False [msg] None"

text \<open>\<open>!room || !room.is_active || room.status !== "AVAILABLE"\<close>.\<close>

definition room_unusable :: "room option \<Rightarrow> bool" where
  "room_unusable r =
     (case r of
        None \<Rightarrow> True
      | Some x \<Rightarrow> if r_is_active x then r_status x \<noteq> ''AVAILABLE'' else True)"

text \<open>
  The availability test of a room, made only when a start and a duration are given; the
  errors of the negative result, \<open>availability.data.reason || "Room is not available"\<close>.
\<close>

definition room_availability_errors ::
  "env \<Rightarrow> db \<Rightarrow> int \<Rightarrow> int jsval \<Rightarrow> int jsval \<Rightarrow> int option \<Rightarrow> string list option" where
  "room_availability_errors en tx rid st dur exclude =
     (case (st, num_or_null dur) of
        (Val s, Some h) \<Rightarrow>
          (case checkRoomAvailability en tx rid s h exclude of
             RoomFree \<Rightarrow> None
           | RoomBusy reason \<Rightarrow>
               Some [case reason of
                       None \<Rightarrow> ''Room is not available''
                     | Some m \<Rightarrow> if m \<noteq> [] then m else ''Room is not available''])
      | _ \<Rightarrow> None)"

text \<open>\<open>Number(room.base_price || 0)\<close>, plus hourly rate times hours when both are truthy.\<close>

definition room_cost :: "room \<Rightarrow> int jsval \<Rightarrow> int" where
  "room_cost r dur =
     col_or (r_base_price r) 0 +
     (case num_or_null dur of
        None \<Rightarrow> 0
      | Some h \<Rightarrow>
          (case hourly_rate r of
             None \<Rightarrow> 0
           | Some rate \<Rightarrow> if rate \<noteq> 0 then rate * h else 0))"

definition variationBasePrice :: "db \<Rightarrow> service_line \<Rightarrow> int" where
  "variationBasePrice tx service =
     (case num_or_null (sl_variation_id service) of
        None \<Rightarrow> 0
      | Some vid \<Rightarrow>
          (case find_variation tx vid of
             None \<Rightarrow> 0
           | Some v \<Rightarrow> col_or (v_base_price v) 0))"

text \<open>\<open>Number(service.custom_price || variationBasePrice)\<close> and \<open>Number(service.quantity || 1)\<close>.\<close>

definition line_price :: "db \<Rightarrow> service_line \<Rightarrow> int" where
  "line_price tx service = num_or (sl_custom_price service) (variationBasePrice tx service)"

definition line_quantity :: "service_line \<Rightarrow> int" where
  "line_quantity service = num_or (sl_quantity service) 1"

definition has_schedule :: "service_line \<Rightarrow> bool" where
  "has_schedule service =
     (truthy_num (sl_variation_id service) \<and> truthy_time (sl_scheduled_time service) \<and>
      truthy_num (sl_duration_hours service))"

definition line_availability :: "db \<Rightarrow> service_line \<Rightarrow> payload validation_result" where
  "line_availability tx service =
     checkVariationAvailability tx (sl_variation_id service) (sl_scheduled_time service)
       (sl_duration_hours service)"

text \<open>
  The loop over the requested service lines, the same in createEvent and updateEvent: it
  returns early (\<open>Inl\<close>) on the first line that fails, else the cost with every line added.
\<close>

fun add_services ::
  "env \<Rightarrow> db \<Rightarrow> service_line list \<Rightarrow> int \<Rightarrow> payload validation_result + int" where
  "add_services en tx [] calculatedEstimatedCost = Inr calculatedEstimatedCost"
| "add_services en tx (service # rest) calculatedEstimatedCost =
     (let serviceErrors = validateEventServiceData en service in
      if length serviceErrors > 0 then Inl (createValidationResult False serviceErrors None)
      else if has_schedule service \<and> \<not> isValid (line_availability tx service)
      then Inl (line_availability tx service)
      else add_services en tx rest
             (calculatedEstimatedCost + line_price tx service * line_quantity service))"

section \<open>Rows written for the service lines and the invoice\<close>

definition new_service_row :: "int \<Rightarrow> int \<Rightarrow> service_line \<Rightarrow> event_service option" where
  "new_service_row rid eid service =
     (case to_number (sl_service_id service) of
        None \<Rightarrow> None
      | Some sid \<Rightarrow>
          Some \<lparr>event_service_id = rid, es_event_id = eid, es_service_id = sid,
                es_variation_id = num_or_null (sl_variation_id service),
                es_quantity = line_quantity service,
                es_custom_price = num_or_null (sl_custom_price service),
                es_notes = trim_or_null (sl_notes service),
                es_status = (case sl_status service of
                               Val st \<Rightarrow> if st \<noteq> [] then st else ''CONFIRMED''
                             | _ \<Rightarrow> ''CONFIRMED''),
                es_scheduled_time = time_or_null (sl_scheduled_time service),
                es_duration_hours = num_or_null (sl_duration_hours service)\<rparr>)"

text \<open>\<open>createMany\<close>: the rows get consecutive ids; a row the store refuses fails the call.\<close>

definition new_service_rows :: "int \<Rightarrow> int \<Rightarrow> service_line list \<Rightarrow> event_service list option" where
  "new_service_rows first_id eid event_services =
     those (map (\<lambda>(k, service). new_service_row (first_id + int k) eid service)
              (enumerate 0 event_services))"

definition create_services :: "db \<Rightarrow> int \<Rightarrow> service_line list \<Rightarrow> exn + db" where
  "create_services tx eid event_services =
     (case new_service_rows (next_event_service_id tx) eid event_services of
        None \<Rightarrow> Inl (StoreError ''Invalid value for argument service_id'')
      | Some rows \<Rightarrow>
          Inr (tx\<lparr>eventServices := eventServices tx @ rows,
                  next_event_service_id := next_event_service_id tx + int (length rows)\<rparr>))"

definition room_detail :: "int \<Rightarrow> room \<Rightarrow> invoice_detail" where
  "room_detail iid r =
     \<lparr>det_invoice_id = iid, item_name = room_name r, det_quantity = 1,
      unit_price = r_base_price r, subtotal = r_base_price r, det_item_type = ROOM,
      det_service_id = None, det_variation_id = None\<rparr>"

definition variationName :: "db \<Rightarrow> service_line \<Rightarrow> string" where
  "variationName tx service =
     (case num_or_null (sl_variation_id service) of
        None \<Rightarrow> ''Service''
      | Some vid \<Rightarrow>
          (case find_variation tx vid of
             None \<Rightarrow> ''Service''
           | Some v \<Rightarrow> if variation_name v \<noteq> [] then variation_name v else ''Service''))"

definition service_detail :: "db \<Rightarrow> int \<Rightarrow> service_line \<Rightarrow> invoice_detail option" where
  "service_detail tx iid service =
     (case to_number (sl_service_id service) of
        None \<Rightarrow> None
      | Some sid \<Rightarrow>
          Some \<lparr>det_invoice_id = iid, item_name = variationName tx service,
                det_quantity = line_quantity service,
                unit_price = Some (line_price tx service),
                subtotal = Some (line_price tx service * line_quantity service),
                det_item_type = SERVICE, det_service_id = Some sid,
                det_variation_id = num_or_null (sl_variation_id service)\<rparr>)"

text \<open>
  The detail lines of an invoice: one for the room when there is one (reading
  \<open>room.room_name\<close> of a room that is not found throws), one per service line.
\<close>

definition invoice_lines ::
  "db \<Rightarrow> int \<Rightarrow> int option \<Rightarrow> service_line list \<Rightarrow> exn + invoice_detail list" where
  "invoice_lines tx iid rid event_services =
     (case (case rid of
              None \<Rightarrow> Inr []
            | Some r \<Rightarrow>
                (case find_room tx r of
                   None \<Rightarrow> Inl (TypeError (''Cannot read properties of null (reading ''
                                      @ [CHR 0x27] @ ''room_name'' @ [CHR 0x27] @ '')''))
                 | Some rm \<Rightarrow> Inr [room_detail iid rm])) of
        Inl e \<Rightarrow> Inl e
      | Inr room_lines \<Rightarrow>
          (case those (map (service_detail tx iid) event_services) of
             None \<Rightarrow> Inl (StoreError ''Invalid value for argument service_id'')
           | Some service_lines \<Rightarrow> Inr (room_lines @ service_lines)))"

section \<open>createEvent\<close>

definition account_missing :: "db \<Rightarrow> int jsval \<Rightarrow> bool" where
  "account_missing tx x =
     (case num_or_null x of None \<Rightarrow> False | Some a \<Rightarrow> a \<notin> set (accounts tx))"

definition event_type_unusable :: "db \<Rightarrow> int jsval \<Rightarrow> bool" where
  "event_type_unusable tx x =
     (case num_or_null x of
        None \<Rightarrow> False
      | Some t \<Rightarrow> (case find_event_type tx t of None \<Rightarrow> True | Some et \<Rightarrow> \<not> t_is_active et))"

text \<open>
  The \<open>event_date\<close> both writes compute: the given date, else midnight of the start
  (\<open>new Date(null)\<close> is the epoch); with neither, an invalid date (\<open>None\<close>) the store refuses.
\<close>

definition event_date_of :: "env \<Rightarrow> int jsval \<Rightarrow> int jsval \<Rightarrow> int option" where
  "event_date_of en ed st =
     (case ed of
        Val dt \<Rightarrow> Some dt
      | _ \<Rightarrow> (case st of
                Val s \<Rightarrow> Some (startOfDay en s)
              | Null \<Rightarrow> Some (startOfDay en 0)
              | Undefined \<Rightarrow> None))"

text \<open>The status written on create: \<open>'PENDING'\<close> when absent; a value outside the enum is refused.\<close>

definition status_on_create :: "string jsval \<Rightarrow> event_status option" where
  "status_on_create x =
     (case x of Undefined \<Rightarrow> Some PENDING | Null \<Rightarrow> None | Val s \<Rightarrow> parse_status s)"

definition create_room_cost ::
  "env \<Rightarrow> db \<Rightarrow> event_input \<Rightarrow> payload validation_result + int" where
  "create_room_cost en tx eventData =
     (let calculatedEstimatedCost = num_or (in_estimated_cost eventData) 0 in
      case num_or_null (in_room_id eventData) of
        None \<Rightarrow> Inr calculatedEstimatedCost
      | Some rid \<Rightarrow>
          if room_unusable (find_room tx rid)
          then Inl (fail ''Room not found, inactive, or unavailable'')
          else
            (case room_availability_errors en tx rid (in_start_time eventData)
                    (in_duration_hours eventData) None of
               Some errs \<Rightarrow> Inl (createValidationResult False errs None)
             | None \<Rightarrow>
                 (case find_room tx rid of
                    None \<Rightarrow> Inl (fail ''Room not found, inactive, or unavailable'')
                  | Some rm \<Rightarrow>
                      Inr (calculatedEstimatedCost
                           + room_cost rm (in_duration_hours eventData)))))"

definition week_ms :: int where
  "week_ms = 7 * 24 * 60 * 60 * 1000"

definition create_invoice ::
  "env \<Rightarrow> db \<Rightarrow> event \<Rightarrow> event_input \<Rightarrow> int \<Rightarrow> exn + db" where
  "create_invoice en tx newEvent eventData calculatedEstimatedCost =
     (if calculatedEstimatedCost > 0 then
        let inv = \<lparr>invoice_id = next_invoice_id tx, invoice_number = now en,
                   total_amount = calculatedEstimatedCost, inv_event_id = event_id newEvent,
                   inv_account_id = account_id newEvent, inv_status = ''PENDING'',
                   issue_date = now en, due_date = now en + week_ms\<rparr>
        in (case invoice_lines tx (invoice_id inv) (num_or_null (in_room_id eventData))
                   (in_event_services eventData) of
              Inl e \<Rightarrow> Inl e
            | Inr details \<Rightarrow>
                Inr (tx\<lparr>invoices := invoices tx @ [inv],
                        invoiceDetails := invoiceDetails tx @ details,
                        next_invoice_id := next_invoice_id tx + 1\<rparr>))
      else Inr tx)"

definition booking_notification :: "int \<Rightarrow> event \<Rightarrow> notification" where
  "booking_notification a newEvent =
     \<lparr>n_account_id = a, n_title = ''Booking Successful'',
      n_message = utf16 ''Your event '' @ [34] @ event_name newEvent @ [34]
                  @ utf16 '' has been booked successfully!'',
      n_type = ''CONFIRMATION''\<rparr>"

text \<open>
  The writes of the transaction, in the order of the source: the event, its service lines,
  the invoice with its lines, then the awaited call of the notifier. An exception at any
  step leaves the callback (\<open>Inl\<close>).
\<close>

definition create_writes ::
  "env \<Rightarrow> db \<Rightarrow> event_input \<Rightarrow> int
   \<Rightarrow> exn + (payload validation_result \<times> db \<times> notification list)" where
  "create_writes en tx eventData calculatedEstimatedCost =
     (case in_event_name eventData of
        Val nm \<Rightarrow>
          (case event_date_of en (in_event_date eventData) (in_start_time eventData) of
             None \<Rightarrow> Inl (StoreError ''Provided Date object is invalid'')
           | Some ed \<Rightarrow>
               (case status_on_create (in_status eventData) of
                  None \<Rightarrow> Inl (StoreError ''Invalid value for argument status'')
                | Some st \<Rightarrow>
                    let newEvent =
                          \<lparr>event_id = next_event_id tx, event_name = trim nm,
                           description = trim_or_null (in_description eventData),
                           start_time = time_or_null (in_start_time eventData),
                           end_time = time_or_null (in_end_time eventData),
                           event_date = ed,
                           estimated_cost = calculatedEstimatedCost,
                           final_cost = num_or_null (in_final_cost eventData),
                           room_service_fee = num_or_null (in_room_service_fee eventData),
                           status = st,
                           account_id = num_or_null (in_account_id eventData),
                           room_id = num_or_null (in_room_id eventData),
                           event_type_id = num_or_null (in_event_type_id eventData)\<rparr>;
                        tx1 = tx\<lparr>events := events tx @ [newEvent],
                                 next_event_id := next_event_id tx + 1\<rparr>
                    in (case (if length (in_event_services eventData) > 0
                              then create_services tx1 (event_id newEvent)
                                     (in_event_services eventData)
                              else Inr tx1) of
                          Inl e \<Rightarrow> Inl e
                        | Inr tx2 \<Rightarrow>
                            (case create_invoice en tx2 newEvent eventData
                                    calculatedEstimatedCost of
                               Inl e \<Rightarrow> Inl e
                             | Inr tx3 \<Rightarrow>
                                 (case account_id newEvent of
                                    None \<Rightarrow>
                                      Inr (createValidationResult True []
                                             (Some (EventData newEvent 0)), tx3, [])
                                  | Some a \<Rightarrow>
                                      (case createNotification en
                                              (booking_notification a newEvent) of
                                         Some e \<Rightarrow> Inl e
                                       | None \<Rightarrow>
                                           Inr (createValidationResult True []
                                                  (Some (EventData newEvent 0)), tx3,
                                                [booking_notification a newEvent])))))))
      | _ \<Rightarrow> Inl (TypeError (''Cannot read properties of undefined (reading ''
                          @ [CHR 0x27] @ ''trim'' @ [CHR 0x27] @ '')'')))"

definition createEvent_tx ::
  "env \<Rightarrow> db \<Rightarrow> event_input
   \<Rightarrow> exn + (payload validation_result \<times> db \<times> notification list)" where
  "createEvent_tx en tx eventData =
     (if account_missing tx (in_account_id eventData)
      then Inr (fail ''Account not found'', tx, [])
      else
        (case create_room_cost en tx eventData of
           Inl r \<Rightarrow> Inr (r, tx, [])
         | Inr cost1 \<Rightarrow>
             if event_type_unusable tx (in_event_type_id eventData)
             then Inr (fail ''Event type not found or inactive'', tx, [])
             else
               (case add_services en tx (in_event_services eventData) cost1 of
                  Inl r \<Rightarrow> Inr (r, tx, [])
                | Inr calculatedEstimatedCost \<Rightarrow>
                    create_writes en tx eventData calculatedEstimatedCost)))"

text \<open>
  \<open>prisma.$transaction\<close> commits what the callback wrote when it returns and rolls it back
  when it throws; the \<open>catch\<close> of createEvent then answers with \<open>handleError\<close>. The third
  component lists the notifications the notifier accepted.
\<close>

definition createEvent ::
  "env \<Rightarrow> db \<Rightarrow> event_input \<Rightarrow> payload validation_result \<times> db \<times> notification list" where
  "createEvent en d eventData =
     (let validationErrors = validateEventData en eventData in
      if length validationErrors > 0
      then (createValidationResult False validationErrors None, d, [])
      else (case createEvent_tx en d eventData of
              Inl e \<Rightarrow> (handleError e, d, [])
            | Inr out \<Rightarrow> out))"

section \<open>updateEvent\<close>

text \<open>
  The ownership and lead-time check of a customer: \<open>Some\<close> errors when the update is
  refused. \<open>new Date(null)\<close> is the epoch; the difference is compared with 24 hours.
\<close>

definition policy_errors :: "env \<Rightarrow> event \<Rightarrow> user option \<Rightarrow> string list option" where
  "policy_errors en existingEvent usr =
     (case usr of
        None \<Rightarrow> None
      | Some u \<Rightarrow>
          if role u = ''CUSTOMER'' then
            (if account_id existingEvent \<noteq> u_account_id u
             then Some [''You can only update your own events.'']
             else if (case start_time existingEvent of None \<Rightarrow> 0 | Some t \<Rightarrow> t) - now en
                     < 24 * ms_per_hour
             then Some [''You can only update events at least 24 hours in advance.'']
             else None)
          else None)"

text \<open>
  The cost the update starts from and the room checks. A room that differs from the stored
  one resets the cost to that room's price; otherwise the cost stays
  \<open>estimated_cost || existingEvent.estimated_cost || 0\<close>.
\<close>

definition update_room_cost ::
  "env \<Rightarrow> db \<Rightarrow> event \<Rightarrow> int \<Rightarrow> event_input \<Rightarrow> payload validation_result + int" where
  "update_room_cost en tx existingEvent validEventId updateData =
     (let calculatedEstimatedCost =
            num_or (in_estimated_cost updateData) (estimated_cost existingEvent);
          changed = (case num_or_null (in_room_id updateData) of
                       None \<Rightarrow> None
                     | Some rid \<Rightarrow> if Some rid \<noteq> room_id existingEvent then Some rid else None)
      in case changed of
           Some rid \<Rightarrow>
             if room_unusable (find_room tx rid)
             then Inl (fail ''Room not found, inactive, or unavailable'')
             else
               (case room_availability_errors en tx rid (in_start_time updateData)
                       (in_duration_hours updateData) (Some validEventId) of
                  Some errs \<Rightarrow> Inl (createValidationResult False errs None)
                | None \<Rightarrow>
                    (case find_room tx rid of
                       None \<Rightarrow> Inl (fail ''Room not found, inactive, or unavailable'')
                     | Some rm \<Rightarrow> Inr (room_cost rm (in_duration_hours updateData))))
         | None \<Rightarrow>
             (case (if truthy_time (in_start_time updateData)
                       \<or> truthy_num (in_duration_hours updateData)
                    then (case room_id existingEvent of
                            None \<Rightarrow> None
                          | Some r \<Rightarrow> if r \<noteq> 0 then Some r else None)
                    else None) of
                None \<Rightarrow> Inr calculatedEstimatedCost
              | Some r \<Rightarrow>
                  if room_unusable (find_room tx r)
                  then Inl (fail ''Current room is not available'')
                  else
                    (case room_availability_errors en tx r (in_start_time updateData)
                            (in_duration_hours updateData) (Some validEventId) of
                       Some errs \<Rightarrow> Inl (createValidationResult False errs None)
                     | None \<Rightarrow> Inr calculatedEstimatedCost)))"

text \<open>A column of the update: left as it is when the property is absent.\<close>

definition keep_or :: "'a jsval \<Rightarrow> ('a jsval \<Rightarrow> 'b) \<Rightarrow> 'b \<Rightarrow> 'b" where
  "keep_or x f old = (case x of Undefined \<Rightarrow> old | _ \<Rightarrow> f x)"

text \<open>\<open>x !== undefined ? Number(x) : undefined\<close> read at a given value: \<open>Number(null)\<close> is 0.\<close>

definition number_of :: "int jsval \<Rightarrow> int option" where
  "number_of x = to_number x"

text \<open>
  The \<open>data\<close> of \<open>event.update\<close> applied to the stored row; \<open>None\<close> when the store refuses it
  (an invalid date, a status outside the enum).
\<close>

definition apply_update :: "env \<Rightarrow> event_input \<Rightarrow> int \<Rightarrow> event \<Rightarrow> event option" where
  "apply_update en updateData calculatedEstimatedCost old =
     (case event_date_of en (in_event_date updateData) (in_start_time updateData) of
        None \<Rightarrow> None
      | Some ed \<Rightarrow>
          (case (case in_status updateData of
                   Undefined \<Rightarrow> Some (status old)
                 | Null \<Rightarrow> None
                 | Val s \<Rightarrow> parse_status s) of
             None \<Rightarrow> None
           | Some st \<Rightarrow>
               Some \<lparr>event_id = event_id old,
                     event_name = (case in_event_name updateData of
                                     Val nm \<Rightarrow> trim nm
                                   | _ \<Rightarrow> event_name old),
                     description = keep_or (in_description updateData) trim_or_null
                                     (description old),
                     start_time = keep_or (in_start_time updateData) time_or_null
                                    (start_time old),
                     end_time = keep_or (in_end_time updateData) time_or_null (end_time old),
                     event_date = ed,
                     estimated_cost = calculatedEstimatedCost,
                     final_cost = keep_or (in_final_cost updateData) number_of (final_cost old),
                     room_service_fee = keep_or (in_room_service_fee updateData) number_of
                                          (room_service_fee old),
                     status = st,
                     account_id = keep_or (in_account_id updateData) num_or_null
                                    (account_id old),
                     room_id = keep_or (in_room_id updateData) num_or_null (room_id old),
                     event_type_id = keep_or (in_event_type_id updateData) num_or_null
                                       (event_type_id old)\<rparr>))"

text \<open>The service lines: untouched for an empty list, else deleted and created anew.\<close>

definition replace_services :: "db \<Rightarrow> int \<Rightarrow> service_line list \<Rightarrow> exn + db" where
  "replace_services tx validEventId event_services =
     (if length event_services > 0 then
        create_services
          (tx\<lparr>eventServices := filter (\<lambda>s. es_event_id s \<noteq> validEventId) (eventServices tx)\<rparr>)
          validEventId event_services
      else Inr tx)"

text \<open>\<open>Number(room_id || existingEvent.room_id)\<close> under \<open>if (room_id || existingEvent.room_id)\<close>.\<close>

definition invoice_room :: "event_input \<Rightarrow> event \<Rightarrow> int option" where
  "invoice_room updateData existingEvent =
     (case num_or_null (in_room_id updateData) of
        Some rid \<Rightarrow> Some rid
      | None \<Rightarrow> (case room_id existingEvent of
                   None \<Rightarrow> None
                 | Some r \<Rightarrow> if r \<noteq> 0 then Some r else None))"

definition update_invoice ::
  "db \<Rightarrow> event \<Rightarrow> int \<Rightarrow> event_input \<Rightarrow> int \<Rightarrow> exn + db" where
  "update_invoice tx existingEvent validEventId updateData calculatedEstimatedCost =
     (if calculatedEstimatedCost \<noteq> estimated_cost existingEvent then
        (case find (\<lambda>i. inv_event_id i = validEventId) (invoices tx) of
           None \<Rightarrow> Inr tx
         | Some existingInvoice \<Rightarrow>
             let iid = invoice_id existingInvoice;
                 tx1 = tx\<lparr>invoices :=
                            map (\<lambda>i. if invoice_id i = iid
                                     then i\<lparr>total_amount := calculatedEstimatedCost\<rparr> else i)
                              (invoices tx)\<rparr>;
                 tx2 = tx1\<lparr>invoiceDetails :=
                             filter (\<lambda>x. det_invoice_id x \<noteq> iid) (invoiceDetails tx1)\<rparr>
             in (case invoice_lines tx2 iid (invoice_room updateData existingEvent)
                        (in_event_services updateData) of
                   Inl e \<Rightarrow> Inl e
                 | Inr details \<Rightarrow>
                     Inr (tx2\<lparr>invoiceDetails := invoiceDetails tx2 @ details\<rparr>)))
      else Inr tx)"

text \<open>
  The writes of the update, in the order of the source. The row read before the
  transaction is the row the update rewrites (nothing is written in between).
\<close>

definition update_writes ::
  "env \<Rightarrow> db \<Rightarrow> event \<Rightarrow> int \<Rightarrow> event_input \<Rightarrow> int
   \<Rightarrow> exn + (payload validation_result \<times> db)" where
  "update_writes en tx existingEvent validEventId updateData calculatedEstimatedCost =
     (case apply_update en updateData calculatedEstimatedCost existingEvent of
        None \<Rightarrow> Inl (StoreError ''Invalid value in the data of the update'')
      | Some updatedEvent \<Rightarrow>
          let tx1 = update_event validEventId (\<lambda>e. updatedEvent) tx;
              eventServicesCount =
                length (filter (\<lambda>s. es_event_id s = validEventId) (eventServices tx))
          in (case replace_services tx1 validEventId (in_event_services updateData) of
                Inl e \<Rightarrow> Inl e
              | Inr tx2 \<Rightarrow>
                  (case update_invoice tx2 existingEvent validEventId updateData
                          calculatedEstimatedCost of
                     Inl e \<Rightarrow> Inl e
                   | Inr tx3 \<Rightarrow>
                       Inr (createValidationResult True []
                              (Some (EventData updatedEvent eventServicesCount)), tx3))))"

definition updateEvent_tx ::
  "env \<Rightarrow> db \<Rightarrow> event \<Rightarrow> int \<Rightarrow> event_input \<Rightarrow> exn + (payload validation_result \<times> db)" where
  "updateEvent_tx en tx existingEvent validEventId updateData =
     (if account_missing tx (in_account_id updateData)
      then Inr (fail ''Account not found'', tx)
      else
        (case update_room_cost en tx existingEvent validEventId updateData of
           Inl r \<Rightarrow> Inr (r, tx)
         | Inr cost1 \<Rightarrow>
             if event_type_unusable tx (in_event_type_id updateData)
             then Inr (fail ''Event type not found or inactive'', tx)
             else
               (case add_services en tx (in_event_services updateData) cost1 of
                  Inl r \<Rightarrow> Inr (r, tx)
                | Inr calculatedEstimatedCost \<Rightarrow>
                    update_writes en tx existingEvent validEventId updateData
                      calculatedEstimatedCost)))"

definition updateEvent ::
  "env \<Rightarrow> db \<Rightarrow> int \<Rightarrow> event_input \<Rightarrow> user option \<Rightarrow> payload validation_result \<times> db" where
  "updateEvent en d eventId updateData usr =
     (case parseAndValidateId en eventId of
        None \<Rightarrow> (invalid_id, d)
      | Some validEventId \<Rightarrow>
          (case find_event d validEventId of
             None \<Rightarrow> (fail ''Event not found'', d)
           | Some existingEvent \<Rightarrow>
               (case policy_errors en existingEvent usr of
                  Some errs \<Rightarrow> (createValidationResult False errs None, d)
                | None \<Rightarrow>
                    let validationErrors = validateEventData en updateData in
                    if length validationErrors > 0
                    then (createValidationResult False validationErrors None, d)
                    else (case updateEvent_tx en d existingEvent validEventId updateData of
                            Inl e \<Rightarrow> (handleError e, d)
                          | Inr out \<Rightarrow> out))))"

section \<open>The claims in the words of the specification\<close>




text \<open>The dependents of an event that deleteEvent counts, and the lines of given invoices.\<close>

definition lines_of :: "db \<Rightarrow> int \<Rightarrow> event_service list" where
  "lines_of d i = filter (\<lambda>s. es_event_id s = i) (eventServices d)"

definition payments_of :: "db \<Rightarrow> int \<Rightarrow> payment list" where
  "payments_of d i = filter (\<lambda>p. pay_event_id p = i) (payments d)"

definition reviews_of :: "db \<Rightarrow> int \<Rightarrow> review list" where
  "reviews_of d i = filter (\<lambda>r. rev_event_id r = i) (reviews d)"

definition invoices_of :: "db \<Rightarrow> int \<Rightarrow> invoice list" where
  "invoices_of d i = filter (\<lambda>v. inv_event_id v = i) (invoices d)"

definition details_of :: "db \<Rightarrow> invoice list \<Rightarrow> invoice_detail list" where
  "details_of d invs = filter (\<lambda>x. det_invoice_id x \<in> invoice_id ` set invs) (invoiceDetails d)"

definition has_dependents :: "db \<Rightarrow> int \<Rightarrow> bool" where
  "has_dependents d i =
     (0 < length (lines_of d i) \<or> 0 < length (invoices_of d i) \<or>
      0 < length (payments_of d i) \<or> 0 < length (reviews_of d i))"

text \<open>
  The cost rule of section 4.3 in the words of the claim: the override (0 when absent), the
  room's base price plus hourly rate times hours when a room is attached, and for each
  line the custom price when present, else the variation's base price, times the quantity
  (1 when absent). The amended rule treats a custom price or a quantity of 0 as absent.
\<close>

definition claimed_room_cost :: "db \<Rightarrow> event_input \<Rightarrow> int" where
  "claimed_room_cost d u =
     (case num_or_null (in_room_id u) of
        None \<Rightarrow> 0
      | Some rid \<Rightarrow>
          (case find_room d rid of
             None \<Rightarrow> 0
           | Some rm \<Rightarrow>
               (case r_base_price rm of None \<Rightarrow> 0 | Some b \<Rightarrow> b)
               + (case in_duration_hours u of
                    Val h \<Rightarrow> (case hourly_rate rm of None \<Rightarrow> 0 | Some rate \<Rightarrow> rate) * h
                  | _ \<Rightarrow> 0)))"

definition claimed_line_cost :: "db \<Rightarrow> service_line \<Rightarrow> int" where
  "claimed_line_cost d line =
     (case sl_custom_price line of Val c \<Rightarrow> c | _ \<Rightarrow> variationBasePrice d line)
     * (case sl_quantity line of Val q \<Rightarrow> q | _ \<Rightarrow> 1)"

definition claimed_cost :: "db \<Rightarrow> event_input \<Rightarrow> int" where
  "claimed_cost d u =
     (case in_estimated_cost u of Val c \<Rightarrow> c | _ \<Rightarrow> 0)
     + claimed_room_cost d u
     + sum_list (map (claimed_line_cost d) (in_event_services u))"

definition amended_line_cost :: "db \<Rightarrow> service_line \<Rightarrow> int" where
  "amended_line_cost d line =
     (case sl_custom_price line of
        Val c \<Rightarrow> if c \<noteq> 0 then c else variationBasePrice d line
      | _ \<Rightarrow> variationBasePrice d line)
     * (case sl_quantity line of Val q \<Rightarrow> if q \<noteq> 0 then q else 1 | _ \<Rightarrow> 1)"

definition amended_cost :: "db \<Rightarrow> event_input \<Rightarrow> int" where
  "amended_cost d u =
     (case in_estimated_cost u of Val c \<Rightarrow> c | _ \<Rightarrow> 0)
     + claimed_room_cost d u
     + sum_list (map (amended_line_cost d) (in_event_services u))"

definition nonzero_lines :: "service_line list \<Rightarrow> bool" where
  "nonzero_lines ls =
     list_all (\<lambda>line. sl_custom_price line \<noteq> Val 0 \<and> sl_quantity line \<noteq> Val 0) ls"

text \<open>
  The sum of the subtotals of detail lines, and of the lines of one invoice; the base
  price of the room a request attaches.
\<close>

definition subtotals :: "invoice_detail list \<Rightarrow> int" where
  "subtotals xs = sum_list (map (\<lambda>x. case subtotal x of None \<Rightarrow> 0 | Some s \<Rightarrow> s) xs)"

definition details_total :: "db \<Rightarrow> int \<Rightarrow> int" where
  "details_total d iid = subtotals (filter (\<lambda>x. det_invoice_id x = iid) (invoiceDetails d))"

definition room_base_price :: "db \<Rightarrow> event_input \<Rightarrow> int" where
  "room_base_price d u =
     (case num_or_null (in_room_id u) of
        None \<Rightarrow> 0
      | Some rid \<Rightarrow>
          (case find_room d rid of
             None \<Rightarrow> 0
           | Some rm \<Rightarrow> (case r_base_price rm of None \<Rightarrow> 0 | Some b \<Rightarrow> b)))"

text \<open>
  What an update starts the cost from: the price of the room when the request changes
  the room, else the override or, without one, the cost stored before.
\<close>

definition update_base_cost :: "db \<Rightarrow> event \<Rightarrow> event_input \<Rightarrow> int" where
  "update_base_cost d old u =
     (case (case num_or_null (in_room_id u) of
              None \<Rightarrow> None
            | Some rid \<Rightarrow> if Some rid \<noteq> room_id old then Some rid else None) of
        Some rid \<Rightarrow>
          (case find_room d rid of
             None \<Rightarrow> 0
           | Some rm \<Rightarrow> room_cost rm (in_duration_hours u))
      | None \<Rightarrow> num_or (in_estimated_cost u) (estimated_cost old))"


text \<open>
  White space in the words of ECMAScript (WhiteSpace and LineTerminator), and a text
  without its outer white space: \<open>stripped s t\<close> says that \<open>s\<close> is \<open>t\<close> between two runs of
  white space and that \<open>t\<close> neither starts nor ends with white space.
\<close>

definition white_space :: "nat \<Rightarrow> bool" where
  "white_space c =
     (c \<in> {9..13} \<union> {32, 160, 5760} \<union> {8192..8202}
          \<union> {8232, 8233, 8239, 8287, 12288, 65279})"

definition stripped :: "ustring \<Rightarrow> ustring \<Rightarrow> bool" where
  "stripped s t =
     ((\<exists>before after. s = before @ t @ after \<and> list_all white_space before
                       \<and> list_all white_space after)
      \<and> (case t of [] \<Rightarrow> True | c # cs \<Rightarrow> \<not> white_space c \<and> \<not> white_space (last t)))"

text \<open>
  The stored row that a supplied service line becomes, for the event \<open>i\<close>, column by
  column: a number that is absent, null or 0 is stored as null (the quantity as 1), the
  notes without their outer white space (null when nothing is left), the status as
  given, CONFIRMED when none is given.
\<close>

definition supplied :: "int jsval \<Rightarrow> int option" where
  "supplied x = (case x of Val n \<Rightarrow> if n = 0 then None else Some n | _ \<Rightarrow> None)"

definition row_of_line :: "int \<Rightarrow> service_line \<Rightarrow> event_service \<Rightarrow> bool" where
  "row_of_line i line row =
     (es_event_id row = i
      \<and> (case sl_service_id line of
            Val n \<Rightarrow> es_service_id row = n
          | Null \<Rightarrow> es_service_id row = 0
          | Undefined \<Rightarrow> False)
      \<and> es_variation_id row = supplied (sl_variation_id line)
      \<and> es_quantity row = (case supplied (sl_quantity line) of None \<Rightarrow> 1 | Some q \<Rightarrow> q)
      \<and> es_custom_price row = supplied (sl_custom_price line)
      \<and> (case sl_notes line of
            Val s \<Rightarrow> (\<exists>t. stripped s t \<and> es_notes row = (if t = [] then None else Some t))
          | _ \<Rightarrow> es_notes row = None)
      \<and> es_status row = (case sl_status line of
                           Val st \<Rightarrow> if st = [] then ''CONFIRMED'' else st
                         | _ \<Rightarrow> ''CONFIRMED'')
      \<and> es_scheduled_time row = (case sl_scheduled_time line of Val t \<Rightarrow> Some t | _ \<Rightarrow> None)
      \<and> es_duration_hours row = supplied (sl_duration_hours line))"

text \<open>
  The decimal numeral of a number: a string of the digits 0 to 9, not empty and with no
  leading 0 unless it is the numeral of 0, whose value read in base ten is the number.
\<close>

definition digit_of :: "char \<Rightarrow> nat option" where
  "digit_of c =
     map_of [(CHR ''0'', 0), (CHR ''1'', 1), (CHR ''2'', 2), (CHR ''3'', 3), (CHR ''4'', 4),
             (CHR ''5'', 5), (CHR ''6'', 6), (CHR ''7'', 7), (CHR ''8'', 8), (CHR ''9'', 9)] c"

definition digits_value :: "string \<Rightarrow> nat" where
  "digits_value s =
     foldl (\<lambda>acc c. 10 * acc + (case digit_of c of None \<Rightarrow> 0 | Some k \<Rightarrow> k)) 0 s"

definition is_numeral_of :: "string \<Rightarrow> nat \<Rightarrow> bool" where
  "is_numeral_of s n =
     (s \<noteq> [] \<and> list_all (\<lambda>c. digit_of c \<noteq> None) s
      \<and> (s = ''0'' \<or> hd s \<noteq> CHR ''0'') \<and> digits_value s = n)"

text \<open>
  The events a listing request asks for (section 4.6): those of the account, room and
  event type named, in the status named, whose start lies in the date range, and whose
  name or description contains the search term without its outer white space.
\<close>

definition status_name :: "event_status \<Rightarrow> string" where
  "status_name st =
     (case st of
        PENDING \<Rightarrow> ''PENDING'' | ACCEPTED \<Rightarrow> ''ACCEPTED'' | CONFIRMED \<Rightarrow> ''CONFIRMED''
      | IN_PROGRESS \<Rightarrow> ''IN_PROGRESS'' | COMPLETED \<Rightarrow> ''COMPLETED''
      | CANCELLED \<Rightarrow> ''CANCELLED'' | RESCHEDULED \<Rightarrow> ''RESCHEDULED'')"

definition wanted_id :: "env \<Rightarrow> int jsval \<Rightarrow> int option \<Rightarrow> bool" where
  "wanted_id en x col =
     (case x of
        Val n \<Rightarrow> n = 0 \<or> (case parseAndValidateId en n of None \<Rightarrow> False | Some i \<Rightarrow> col = Some i)
      | _ \<Rightarrow> True)"

definition event_matches :: "env \<Rightarrow> filters \<Rightarrow> event \<Rightarrow> bool" where
  "event_matches en fl e =
     (wanted_id en (f_account_id fl) (account_id e)
      \<and> wanted_id en (f_room_id fl) (room_id e)
      \<and> wanted_id en (f_event_type_id fl) (event_type_id e)
      \<and> (case f_status fl of Val s \<Rightarrow> s = [] \<or> s = status_name (status e) | _ \<Rightarrow> True)
      \<and> (case dateMin fl of
            Val a \<Rightarrow> (case start_time e of None \<Rightarrow> False | Some t \<Rightarrow> a \<le> t)
          | _ \<Rightarrow> True)
      \<and> (case dateMax fl of
            Val b \<Rightarrow> (case start_time e of None \<Rightarrow> False | Some t \<Rightarrow> t \<le> b)
          | _ \<Rightarrow> True)
      \<and> (case search fl of
            Val q \<Rightarrow>
              (\<exists>t. stripped q t
                  \<and> (t = [] \<or> contains_insensitive en (event_name e) t
                      \<or> (case description e of
                            None \<Rightarrow> False
                          | Some dsc \<Rightarrow> contains_insensitive en dsc t)))
          | _ \<Rightarrow> True))"

definition sort_fields :: "string list" where
  "sort_fields =
     [''event_name'', ''start_time'', ''end_time'', ''estimated_cost'', ''final_cost'',
      ''room_service_fee'', ''date_create'', ''status'']"

section \<open>Example stores\<close>

text \<open>
  Collaborators that accept every value, find every room free and deliver every
  notification; days start at midnight UTC.
\<close>

definition permissive :: env where
  "permissive =
     \<lparr>validateString = (\<lambda>v label. []), validateNumber = (\<lambda>v label. []),
      validateDateRange = (\<lambda>s e. []), validateEventServiceData = (\<lambda>line. []),
      parseAndValidateId = Some, validatePagination = (\<lambda>p l. (p, l, [])),
      checkRoomAvailability = (\<lambda>tx r s h x. RoomFree), createNotification = (\<lambda>n. None),
      startOfDay = (\<lambda>t. t - t mod 86400000), now = 1000,
      contains_insensitive = (\<lambda>hay needle. False), order_rows = (\<lambda>fld dir rows. rows)\<rparr>"

definition example_room :: room where
  "example_room =
     \<lparr>r_room_id = 1, room_name = ''Hall'', r_is_active = True, r_status = ''AVAILABLE'',
      r_base_price = Some 100, hourly_rate = Some 20\<rparr>"

definition example_variation :: variation where
  "example_variation =
     \<lparr>v_variation_id = 7, variation_name = ''Catering'', v_is_active = True,
      v_base_price = Some 30\<rparr>"

definition example_db :: db where
  "example_db =
     \<lparr>accounts = [5], rooms = [example_room],
      eventTypes = [\<lparr>type_id = 3, t_is_active = True\<rparr>],
      variations = [example_variation], events = [], eventServices = [], invoices = [],
      invoiceDetails = [], payments = [], reviews = [],
      next_event_id = 1, next_event_service_id = 1, next_invoice_id = 1\<rparr>"

text \<open>
  A confirmed line of variation 7 from 10:00 to 12:00 (two hours), on event 1, which starts
  at 10:00 of day 0 and was booked with the next day as its event date.
\<close>

definition booked_line :: event_service where
  "booked_line =
     \<lparr>event_service_id = 1, es_event_id = 1, es_service_id = 2, es_variation_id = Some 7,
      es_quantity = 1, es_custom_price = None, es_notes = None, es_status = ''CONFIRMED'',
      es_scheduled_time = Some 36000000, es_duration_hours = Some 2\<rparr>"

definition booked_event :: event where
  "booked_event =
     \<lparr>event_id = 1, event_name = utf16 ''Launch'', description = None,
      start_time = Some 36000000, end_time = Some 43200000, event_date = 86400000,
      estimated_cost = 30, final_cost = None, room_service_fee = None, status = PENDING,
      account_id = Some 5, room_id = None, event_type_id = None\<rparr>"

definition booked_db :: db where
  "booked_db =
     example_db
       \<lparr>events := [booked_event], eventServices := [booked_line],
        invoices := [\<lparr>invoice_id = 1, invoice_number = 1000, total_amount = 30,
                      inv_event_id = 1, inv_account_id = Some 5, inv_status = ''PENDING'',
                      issue_date = 1000, due_date = 604801000\<rparr>],
        invoiceDetails := [\<lparr>det_invoice_id = 1, item_name = ''Catering'', det_quantity = 1,
                            unit_price = Some 30, subtotal = Some 30, det_item_type = SERVICE,
                            det_service_id = Some 2, det_variation_id = Some 7\<rparr>],
        next_event_id := 2, next_event_service_id := 2, next_invoice_id := 2\<rparr>"

text \<open>Three stored events, and a request for the first page of two.\<close>

definition first_page :: filters where
  "first_page =
     \<lparr>f_account_id = Undefined, f_room_id = Undefined, f_event_type_id = Undefined,
      f_status = Undefined, dateMin = Undefined, dateMax = Undefined, search = Undefined,
      f_page = Some 1, f_limit = Some 2, sortBy = ''date_create'', sortOrder = ''asc'',
      includeEventServices = False\<rparr>"

definition three_events :: db where
  "three_events =
     example_db\<lparr>events := [booked_event, booked_event\<lparr>event_id := 2\<rparr>,
                             booked_event\<lparr>event_id := 3\<rparr>]\<rparr>"

text \<open>
  Requests: the scenario of section 8 (room 1 for two hours, one line of 2 at custom price
  50, account 5); a line with custom price 0; the same booking without a duration; a new
  line set for it, also with notes between white space; an update that gives only name,
  start and end.
\<close>

definition blank_input :: event_input where
  "blank_input =
     \<lparr>in_event_name = Undefined, in_description = Undefined, in_start_time = Undefined,
      in_end_time = Undefined, in_event_date = Undefined, in_estimated_cost = Undefined,
      in_final_cost = Undefined, in_room_service_fee = Undefined, in_account_id = Undefined,
      in_room_id = Undefined, in_event_type_id = Undefined, in_status = Undefined,
      in_event_services = [], in_duration_hours = Undefined\<rparr>"

definition scenario_line :: service_line where
  "scenario_line =
     \<lparr>sl_service_id = Val 2, sl_variation_id = Val 7, sl_quantity = Val 2,
      sl_custom_price = Val 50, sl_notes = Undefined, sl_status = Undefined,
      sl_scheduled_time = Undefined, sl_duration_hours = Undefined\<rparr>"

definition scenario_input :: event_input where
  "scenario_input =
     blank_input
       \<lparr>in_event_name := Val (utf16 ''Launch''), in_start_time := Val 36000000,
        in_end_time := Val 43200000, in_account_id := Val 5, in_room_id := Val 1,
        in_event_services := [scenario_line], in_duration_hours := Val 2\<rparr>"

definition scenario_event :: event where
  "scenario_event =
     \<lparr>event_id = 1, event_name = utf16 ''Launch'', description = None,
      start_time = Some 36000000, end_time = Some 43200000, event_date = 0,
      estimated_cost = 240, final_cost = None, room_service_fee = None, status = PENDING,
      account_id = Some 5, room_id = Some 1, event_type_id = None\<rparr>"

definition scenario_row :: event_service where
  "scenario_row =
     \<lparr>event_service_id = 1, es_event_id = 1, es_service_id = 2, es_variation_id = Some 7,
      es_quantity = 2, es_custom_price = Some 50, es_notes = None, es_status = ''CONFIRMED'',
      es_scheduled_time = None, es_duration_hours = None\<rparr>"

definition scenario_invoice :: invoice where
  "scenario_invoice =
     \<lparr>invoice_id = 1, invoice_number = 1000, total_amount = 240, inv_event_id = 1,
      inv_account_id = Some 5, inv_status = ''PENDING'', issue_date = 1000,
      due_date = 604801000\<rparr>"

definition hall_detail :: invoice_detail where
  "hall_detail =
     \<lparr>det_invoice_id = 1, item_name = ''Hall'', det_quantity = 1, unit_price = Some 100,
      subtotal = Some 100, det_item_type = ROOM, det_service_id = None,
      det_variation_id = None\<rparr>"

definition catering_detail :: invoice_detail where
  "catering_detail =
     \<lparr>det_invoice_id = 1, item_name = ''Catering'', det_quantity = 2, unit_price = Some 50,
      subtotal = Some 100, det_item_type = SERVICE, det_service_id = Some 2,
      det_variation_id = Some 7\<rparr>"

definition scenario_db :: db where
  "scenario_db =
     example_db
       \<lparr>events := [scenario_event], eventServices := [scenario_row],
        invoices := [scenario_invoice], invoiceDetails := [hall_detail, catering_detail],
        next_event_id := 2, next_event_service_id := 2, next_invoice_id := 2\<rparr>"

definition free_line :: service_line where
  "free_line = scenario_line\<lparr>sl_quantity := Val 1, sl_custom_price := Val 0\<rparr>"

definition free_input :: event_input where
  "free_input =
     blank_input
       \<lparr>in_event_name := Val (utf16 ''Launch''), in_start_time := Val 36000000,
        in_end_time := Val 43200000, in_event_services := [free_line]\<rparr>"

definition plain_input :: event_input where
  "plain_input = scenario_input\<lparr>in_duration_hours := Undefined\<rparr>"

definition plain_db :: db where
  "plain_db =
     scenario_db
       \<lparr>events := [scenario_event\<lparr>estimated_cost := 200\<rparr>],
        invoices := [scenario_invoice\<lparr>total_amount := 200\<rparr>]\<rparr>"

definition bigger_line :: service_line where
  "bigger_line = scenario_line\<lparr>sl_quantity := Val 3\<rparr>"

definition relined_input :: event_input where
  "relined_input =
     blank_input
       \<lparr>in_event_name := Val (utf16 ''Launch''), in_start_time := Val 36000000,
        in_end_time := Val 43200000, in_event_services := [bigger_line]\<rparr>"

definition noted_line :: service_line where
  "noted_line = bigger_line\<lparr>sl_notes := Val [32, 104, 105, 160]\<rparr>"

definition noted_input :: event_input where
  "noted_input = relined_input\<lparr>in_event_services := [noted_line]\<rparr>"

definition retitled_input :: event_input where
  "retitled_input =
     blank_input
       \<lparr>in_event_name := Val (utf16 ''Launch party''), in_start_time := Val 36000000,
        in_end_time := Val 43200000\<rparr>"

text \<open>Collaborators as before, with a notifier that rejects every call.\<close>

definition rejecting :: env where
  "rejecting =
     permissive\<lparr>createNotification := (\<lambda>n. Some (NotifierError ''notifier unavailable''))\<rparr>"

section \<open>Properties\<close>

declare decimal.simps [simp del]

lemmas example_defs =
  permissive_def example_db_def example_room_def example_variation_def booked_db_def
  booked_line_def booked_event_def

lemmas input_defs =
  blank_input_def scenario_line_def scenario_input_def free_line_def free_input_def
  plain_input_def bigger_line_def relined_input_def retitled_input_def noted_line_def
  noted_input_def

lemmas stored_defs =
  scenario_event_def scenario_row_def scenario_invoice_def hall_detail_def
  catering_detail_def scenario_db_def plain_db_def rejecting_def

lemmas run_defs =
  createEvent_def createEvent_tx_def create_writes_def create_invoice_def invoice_lines_def
  create_services_def new_service_rows_def new_service_row_def service_detail_def
  room_detail_def variationName_def create_room_cost_def room_cost_def
  room_availability_errors_def room_unusable_def account_missing_def
  event_type_unusable_def event_date_of_def status_on_create_def booking_notification_def
  validateEventData_def validate_id_def has_schedule_def line_availability_def
  line_price_def line_quantity_def variationBasePrice_def find_room_def find_variation_def
  find_event_def find_event_type_def parse_status_def EVENT_STATUSES_def week_ms_def
  createValidationResult_def handleError_def fail_def trim_def is_space_def utf16_def
  Let_def enumerate_eq_zip
  updateEvent_def updateEvent_tx_def update_writes_def update_invoice_def
  replace_services_def apply_update_def keep_or_def number_of_def update_room_cost_def
  policy_errors_def update_event_def invoice_room_def invalid_id_def


subsection \<open>Helper facts about lists and the store\<close>


lemma find_update_same:
  assumes "\<And>e. event_id (f e) = event_id e"
  shows "find (\<lambda>e. event_id e = i) (map (\<lambda>e. if event_id e = i then f e else e) xs)
         = map_option f (find (\<lambda>e. event_id e = i) xs)"
  using assms by (induction xs) auto

lemma find_event_update:
  assumes "\<And>e. event_id (f e) = event_id e"
  shows "find_event (update_event i f d) i = map_option f (find_event d i)"
  using assms by (simp add: find_event_def update_event_def find_update_same)

lemma find_filter_conv:
  "(case find P xs of None \<Rightarrow> False | Some _ \<Rightarrow> True) = (0 < length (filter P xs))"
  by (induction xs) auto

lemma find_None_filter: "find P xs = None \<longleftrightarrow> filter P xs = []"
  by (induction xs) auto

lemma find_unique:
  "length (filter P xs) \<le> 1 \<Longrightarrow> find P xs = Some x \<Longrightarrow> y \<in> set xs \<Longrightarrow> P y \<Longrightarrow> y = x"
proof (induction xs)
  case Nil
  then show ?case by simp
next
  case (Cons a xs)
  show ?case
  proof (cases "P a")
    case True
    with Cons.prems have "filter P xs = []" "x = a" by auto
    with Cons.prems True show ?thesis by (auto simp: filter_empty_conv)
  next
    case False
    with Cons show ?thesis by auto
  qed
qed

subsection \<open>White space and decimal numerals\<close>

lemma is_space_white: "is_space c = white_space c"
  by (auto simp: is_space_def white_space_def)

lemma dropWhile_keep: "xs \<noteq> [] \<Longrightarrow> \<not> P (hd xs) \<Longrightarrow> dropWhile P xs = xs"
  by (cases xs) auto

lemma trim_split:
  "\<exists>before after. s = before @ trim s @ after \<and> list_all is_space before
     \<and> list_all is_space after"
proof -
  define m where "m = dropWhile is_space s"
  define post where "post = rev (takeWhile is_space (rev m))"
  have t: "trim s = rev (dropWhile is_space (rev m))"
    by (simp only: trim_def m_def)
  have "m = rev (takeWhile is_space (rev m) @ dropWhile is_space (rev m))"
    by (simp only: takeWhile_dropWhile_id rev_rev_ident)
  then have m: "m = trim s @ post" by (simp only: rev_append t post_def)
  have "s = takeWhile is_space s @ dropWhile is_space s"
    by (simp only: takeWhile_dropWhile_id)
  also have "dropWhile is_space s = trim s @ post"
    using m by (simp only: m_def)
  finally have s: "s = takeWhile is_space s @ trim s @ post" .
  have w1: "list_all is_space (takeWhile is_space s)"
    unfolding list_all_iff by (blast dest: set_takeWhileD)
  have w2: "list_all is_space post"
    unfolding post_def list_all_iff set_rev by (blast dest: set_takeWhileD)
  from s w1 w2 show ?thesis by blast
qed

lemma trim_ends:
  assumes "trim s \<noteq> []"
  shows "\<not> is_space (hd (trim s))" and "\<not> is_space (last (trim s))"
proof -
  define m where "m = dropWhile is_space s"
  have t: "trim s = rev (dropWhile is_space (rev m))"
    by (simp only: trim_def m_def)
  from assms have d: "dropWhile is_space (rev m) \<noteq> []" by (simp add: t)
  have "last (trim s) = hd (dropWhile is_space (rev m))"
    unfolding t using d by (simp only: last_rev)
  moreover have "\<not> is_space (hd (dropWhile is_space (rev m)))"
    using d by (rule hd_dropWhile)
  ultimately show "\<not> is_space (last (trim s))" by simp
  from d have mne: "m \<noteq> []" by auto
  then have nm: "\<not> is_space (hd m)" unfolding m_def by (rule hd_dropWhile)
  have "m = rev (takeWhile is_space (rev m) @ dropWhile is_space (rev m))"
    by (simp only: takeWhile_dropWhile_id rev_rev_ident)
  then have "m = trim s @ rev (takeWhile is_space (rev m))" by (simp only: rev_append t)
  then have "hd m = hd (trim s @ rev (takeWhile is_space (rev m)))" by (rule arg_cong)
  also have "\<dots> = hd (trim s)" using assms by (rule hd_append2)
  finally show "\<not> is_space (hd (trim s))" using nm by simp
qed

lemma stripped_trim: "stripped s (trim s)"
proof -
  from trim_split[of s] obtain before after where
    "s = before @ trim s @ after" "list_all white_space before" "list_all white_space after"
    by (auto simp: list_all_iff is_space_white)
  then have a: "\<exists>before after. s = before @ trim s @ after \<and> list_all white_space before
                  \<and> list_all white_space after"
    by blast
  have b: "case trim s of [] \<Rightarrow> True
           | c # cs \<Rightarrow> \<not> white_space c \<and> \<not> white_space (last (trim s))"
  proof (cases "trim s")
    case Nil
    then show ?thesis by simp
  next
    case (Cons c cs)
    then have ne: "trim s \<noteq> []" by simp
    from trim_ends[OF ne] Cons show ?thesis by (simp add: is_space_white)
  qed
  from a b show ?thesis unfolding stripped_def by (rule conjI)
qed

lemma stripped_unique:
  assumes "stripped s t"
  shows "t = trim s"
proof -
  from assms obtain pre post where s: "s = pre @ t @ post"
    and w1: "list_all white_space pre" and w2: "list_all white_space post"
    and e: "case t of [] \<Rightarrow> True | c # cs \<Rightarrow> \<not> white_space c \<and> \<not> white_space (last t)"
    unfolding stripped_def by blast
  have p1: "\<And>x. x \<in> set pre \<Longrightarrow> is_space x"
    using w1 by (simp add: list_all_iff is_space_white)
  have p2: "\<And>x. x \<in> set (rev post) \<Longrightarrow> is_space x"
    using w2 by (simp add: list_all_iff is_space_white)
  show ?thesis
  proof (cases t)
    case Nil
    have "\<forall>x\<in>set (pre @ post). is_space x" using p1 p2 by auto
    then have "dropWhile is_space (pre @ post) = []"
      by (simp only: dropWhile_eq_Nil_conv)
    moreover have "s = pre @ post" using s Nil by simp
    ultimately have "dropWhile is_space s = []" by (simp only:)
    then show ?thesis by (simp only: trim_def Nil rev.simps dropWhile.simps)
  next
    case (Cons c cs)
    with e have nc: "\<not> is_space c" and nl: "\<not> is_space (last t)"
      by (simp_all add: is_space_white)
    have "dropWhile is_space (pre @ t @ post) = dropWhile is_space (t @ post)"
      by (rule dropWhile_append2) (rule p1)
    also have "\<dots> = t @ post" using nc Cons by simp
    finally have d1: "dropWhile is_space s = t @ post" unfolding s .
    have tne: "rev t \<noteq> []" using Cons by simp
    have "hd (rev t) = last t" using Cons by (simp add: hd_rev)
    with nl have "\<not> is_space (hd (rev t))" by simp
    with tne have tl: "dropWhile is_space (rev t) = rev t" by (rule dropWhile_keep)
    have "dropWhile is_space (rev post @ rev t) = dropWhile is_space (rev t)"
      by (rule dropWhile_append2) (rule p2)
    with tl have "dropWhile is_space (rev (t @ post)) = rev t" by (simp only: rev_append)
    then show ?thesis by (simp only: trim_def d1 rev_rev_ident)
  qed
qed

lemma trim_or_null_stripped:
  "(\<exists>t. stripped s t \<and> x = (if t = [] then None else Some t)) \<longleftrightarrow> x = trim_or_null (Val s)"
proof
  assume "\<exists>t. stripped s t \<and> x = (if t = [] then None else Some t)"
  then obtain t where "stripped s t" "x = (if t = [] then None else Some t)" by blast
  with stripped_unique[of s t] show "x = trim_or_null (Val s)" by simp
next
  assume "x = trim_or_null (Val s)"
  with stripped_trim[of s] show "\<exists>t. stripped s t \<and> x = (if t = [] then None else Some t)"
    by (intro exI[of _ "trim s"]) simp
qed

lemma digit_char_cases:
  assumes "(k::nat) < 10"
  obtains "k = 0" | "k = 1" | "k = 2" | "k = 3" | "k = 4" | "k = 5" | "k = 6" | "k = 7"
    | "k = 8" | "k = 9"
proof -
  from assms have "k = 0 \<or> k = 1 \<or> k = 2 \<or> k = 3 \<or> k = 4 \<or> k = 5 \<or> k = 6 \<or> k = 7
      \<or> k = 8 \<or> k = 9"
    by arith
  with that show ?thesis by blast
qed

lemma digit_of_digit_char: "k < 10 \<Longrightarrow> digit_of (digit_char k) = Some k"
  by (erule digit_char_cases) (simp_all add: digit_of_def digit_char_def)

lemma digit_char_zero: "k < 10 \<Longrightarrow> digit_char k = CHR ''0'' \<longleftrightarrow> k = 0"
  by (erule digit_char_cases) (simp_all add: digit_char_def)

lemma digits_value_snoc:
  "digits_value (s @ [c]) = 10 * digits_value s + (case digit_of c of None \<Rightarrow> 0 | Some k \<Rightarrow> k)"
  by (simp add: digits_value_def)

lemma decimal_nonempty: "decimal n \<noteq> []"
  by (subst decimal.simps) simp

lemma decimal_digits: "list_all (\<lambda>c. digit_of c \<noteq> None) (decimal n)"
proof (induction n rule: decimal.induct)
  case (1 n)
  show ?case
  proof (cases "n < 10")
    case True
    then show ?thesis by (subst decimal.simps) (simp add: digit_of_digit_char)
  next
    case False
    with 1 show ?thesis by (subst decimal.simps) (simp add: digit_of_digit_char)
  qed
qed

lemma decimal_value: "digits_value (decimal n) = n"
proof (induction n rule: decimal.induct)
  case (1 n)
  show ?case
  proof (cases "n < 10")
    case True
    then show ?thesis
      by (subst decimal.simps) (simp add: digits_value_def digit_of_digit_char)
  next
    case False
    with 1 show ?thesis
      by (subst decimal.simps) (simp add: digits_value_snoc digit_of_digit_char)
  qed
qed

lemma decimal_leading: "0 < n \<Longrightarrow> hd (decimal n) \<noteq> CHR ''0''"
proof (induction n rule: decimal.induct)
  case (1 n)
  show ?case
  proof (cases "n < 10")
    case True
    with 1(2) show ?thesis by (subst decimal.simps) (simp add: digit_char_zero)
  next
    case False
    then have "0 < n div 10" by simp
    with 1(1)[OF False] have "hd (decimal (n div 10)) \<noteq> CHR ''0''" by simp
    with False show ?thesis
      by (subst decimal.simps) (simp add: decimal_nonempty)
  qed
qed

lemma decimal_zero: "decimal 0 = ''0''"
  by (subst decimal.simps) (simp add: digit_char_def)

lemma decimal_is_numeral: "is_numeral_of (decimal n) n"
proof (cases "n = 0")
  case True
  then show ?thesis
    using decimal_digits[of 0] decimal_value[of 0]
    by (simp add: is_numeral_of_def decimal_zero)
next
  case False
  then show ?thesis
    using decimal_digits[of n] decimal_leading[of n]
    by (simp add: is_numeral_of_def decimal_nonempty decimal_value)
qed

subsection \<open>checkVariationAvailability\<close>





subsection \<open>toggleEventStatus\<close>

text \<open>
  Claim C7. toggleEventStatus succeeds on a stored event, writes CONFIRMED over PENDING
  and PENDING over every other status, and two toggles of an event that is PENDING or
  CONFIRMED give back the status it started with.
\<close>

theorem toggleEventStatus_flips:
  assumes "parseAndValidateId en eventId = Some i" and "find_event d i = Some ev"
  shows "isValid (fst (toggleEventStatus en d eventId))
    \<and> map_option status (find_event (snd (toggleEventStatus en d eventId)) i)
        = Some (if status ev = PENDING then CONFIRMED else PENDING)
    \<and> (status ev = PENDING \<or> status ev = CONFIRMED \<longrightarrow>
        map_option status
          (find_event (snd (toggleEventStatus en (snd (toggleEventStatus en d eventId)) eventId)) i)
        = Some (status ev))"
  using assms
  by (auto simp: toggleEventStatus_def Let_def find_event_update createValidationResult_def)

theorem toggleEventStatus_flips_witness:
  "map_option status (find_event (snd (toggleEventStatus permissive booked_db 1)) 1)
     = Some CONFIRMED
   \<and> map_option status
        (find_event
           (snd (toggleEventStatus permissive (snd (toggleEventStatus permissive booked_db 1)) 1))
           1)
     = Some PENDING"
proof -
  have p: "parseAndValidateId permissive 1 = Some 1" by (simp add: permissive_def)
  have f: "find_event booked_db 1 = Some booked_event" by (simp add: find_event_def example_defs)
  have s: "status booked_event = PENDING" by (simp add: booked_event_def)
  show ?thesis
    using toggleEventStatus_flips[OF p f] by (simp add: s)
qed

subsection \<open>deleteEvent\<close>

lemma deleteEvent_missing:
  assumes "parseAndValidateId en eventId = Some i" "find_event d i = None"
  shows "deleteEvent en d eventId force = (createValidationResult False [''Event not found''] None, d)"
  using assms by (simp add: deleteEvent_def)

lemma deleteEvent_blocked:
  assumes "parseAndValidateId en eventId = Some i" "find_event d i = Some ev" "has_dependents d i"
  shows "deleteEvent en d eventId False =
           (createValidationResult False
              [blocked_message (length (lines_of d i)) (length (payments_of d i))
                 (length (reviews_of d i)) (0 < length (invoices_of d i))]
              (Some (DeleteBlocked (length (lines_of d i)) (length (payments_of d i))
                 (length (reviews_of d i)) (0 < length (invoices_of d i)))), d)"
  using assms
  by (simp add: deleteEvent_def Let_def has_dependents_def lines_of_def payments_of_def
      reviews_of_def invoices_of_def find_filter_conv)

lemma blocked_message_counts:
  "\<exists>s p r. blocked_message n m k b
             = ''Cannot delete event. It has '' @ s @ '' services, '' @ p @ '' payments, ''
               @ r @ '' reviews, and '' @ (if b then ''1'' else ''0'')
               @ '' invoice. Use forceDelete to delete anyway.''
           \<and> is_numeral_of s n \<and> is_numeral_of p m \<and> is_numeral_of r k"
  unfolding blocked_message_def
  by (intro exI[of _ "decimal n"] exI[of _ "decimal m"] exI[of _ "decimal k"] conjI refl
      decimal_is_numeral)

lemma deleteEvent_forced:
  assumes "parseAndValidateId en eventId = Some i" "find_event d i = Some ev"
  shows "isValid (fst (deleteEvent en d eventId True))"
    and "events (snd (deleteEvent en d eventId True)) = filter (\<lambda>e. event_id e \<noteq> i) (events d)"
    and "eventServices (snd (deleteEvent en d eventId True))
         = filter (\<lambda>s. es_event_id s \<noteq> i) (eventServices d)"
    and "payments (snd (deleteEvent en d eventId True))
         = filter (\<lambda>p. pay_event_id p \<noteq> i) (payments d)"
    and "reviews (snd (deleteEvent en d eventId True))
         = filter (\<lambda>r. rev_event_id r \<noteq> i) (reviews d)"
  using assms
  by (auto simp: deleteEvent_def Let_def createValidationResult_def split: option.splits)

lemma deleteEvent_forced_invoice:
  assumes "parseAndValidateId en eventId = Some i" "find_event d i = Some ev"
    and "length (invoices_of d i) \<le> 1"
  shows "invoices_of (snd (deleteEvent en d eventId True)) i = []"
    and "details_of (snd (deleteEvent en d eventId True)) (invoices_of d i) = []"
proof -
  show "invoices_of (snd (deleteEvent en d eventId True)) i = []"
  proof (cases "find (\<lambda>v. inv_event_id v = i) (invoices d)")
    case None
    then have "filter (\<lambda>v. inv_event_id v = i) (invoices d) = []"
      by (simp add: find_None_filter)
    with None assms(1,2) show ?thesis
      by (simp add: deleteEvent_def Let_def invoices_of_def)
  next
    case (Some x)
    have "\<And>y. y \<in> set (invoices d) \<Longrightarrow> inv_event_id y = i \<Longrightarrow> y = x"
      using find_unique[OF assms(3)[unfolded invoices_of_def] Some] by blast
    then have "filter (\<lambda>v. inv_event_id v = i)
                 (filter (\<lambda>v. invoice_id v \<noteq> invoice_id x) (invoices d)) = []"
      by (auto simp: filter_empty_conv)
    with Some assms(1,2) show ?thesis
      by (simp add: deleteEvent_def Let_def invoices_of_def)
  qed
  show "details_of (snd (deleteEvent en d eventId True)) (invoices_of d i) = []"
  proof (cases "find (\<lambda>v. inv_event_id v = i) (invoices d)")
    case None
    then have "filter (\<lambda>v. inv_event_id v = i) (invoices d) = []"
      by (simp add: find_None_filter)
    then show ?thesis
      by (simp add: details_of_def invoices_of_def)
  next
    case (Some x)
    have "\<And>y. y \<in> set (invoices d) \<Longrightarrow> inv_event_id y = i \<Longrightarrow> y = x"
      using find_unique[OF assms(3)[unfolded invoices_of_def] Some] by blast
    then have "invoice_id ` set (invoices_of d i) \<subseteq> {invoice_id x}"
      by (auto simp: invoices_of_def)
    with Some assms(1,2) show ?thesis
      by (auto simp: deleteEvent_def Let_def details_of_def filter_empty_conv)
  qed
qed

text \<open>
  Claim C8. deleteEvent on an id with no event answers "Event not found" and leaves the
  store as it is. On an event with a dependent (service line, invoice, payment or review)
  and forceDelete unset it answers with the counts of the dependents, in the message and
  in the data, and leaves the store as it is; the message is the sentence of the code with
  the decimal numerals of the numbers of service lines, payments and reviews of the event
  in the store, and 1 or 0 for the invoice. With forceDelete set it succeeds and no
  event, service line, payment or review of the id is left; where the event has at most
  one invoice (the relation is one to one), no invoice of the event and no detail line of
  such an invoice is left either.
\<close>

theorem deleteEvent_dependency_guard:
  assumes "parseAndValidateId en eventId = Some i"
  shows "(find_event d i = None \<longrightarrow>
            deleteEvent en d eventId force
            = (createValidationResult False [''Event not found''] None, d))
       \<and> (find_event d i \<noteq> None \<and> has_dependents d i \<longrightarrow>
            deleteEvent en d eventId False =
              (createValidationResult False
                 [blocked_message (length (lines_of d i)) (length (payments_of d i))
                    (length (reviews_of d i)) (0 < length (invoices_of d i))]
                 (Some (DeleteBlocked (length (lines_of d i)) (length (payments_of d i))
                    (length (reviews_of d i)) (0 < length (invoices_of d i)))), d)
          \<and> (\<exists>s p r. errors (fst (deleteEvent en d eventId False))
                       = [''Cannot delete event. It has '' @ s @ '' services, '' @ p
                          @ '' payments, '' @ r @ '' reviews, and ''
                          @ (if 0 < length (invoices_of d i) then ''1'' else ''0'')
                          @ '' invoice. Use forceDelete to delete anyway.'']
                  \<and> is_numeral_of s (length (lines_of d i))
                  \<and> is_numeral_of p (length (payments_of d i))
                  \<and> is_numeral_of r (length (reviews_of d i))))
       \<and> (find_event d i \<noteq> None \<longrightarrow>
            isValid (fst (deleteEvent en d eventId True))
          \<and> find_event (snd (deleteEvent en d eventId True)) i = None
          \<and> lines_of (snd (deleteEvent en d eventId True)) i = []
          \<and> payments_of (snd (deleteEvent en d eventId True)) i = []
          \<and> reviews_of (snd (deleteEvent en d eventId True)) i = []
          \<and> (length (invoices_of d i) \<le> 1 \<longrightarrow>
                invoices_of (snd (deleteEvent en d eventId True)) i = []
              \<and> details_of (snd (deleteEvent en d eventId True)) (invoices_of d i) = []))"
proof (intro conjI impI)
  assume "find_event d i = None"
  then show "deleteEvent en d eventId force
             = (createValidationResult False [''Event not found''] None, d)"
    using deleteEvent_missing[OF assms] by simp
next
  assume "find_event d i \<noteq> None \<and> has_dependents d i"
  then obtain ev where "find_event d i = Some ev" "has_dependents d i" by auto
  then show "deleteEvent en d eventId False =
              (createValidationResult False
                 [blocked_message (length (lines_of d i)) (length (payments_of d i))
                    (length (reviews_of d i)) (0 < length (invoices_of d i))]
                 (Some (DeleteBlocked (length (lines_of d i)) (length (payments_of d i))
                    (length (reviews_of d i)) (0 < length (invoices_of d i)))), d)"
    using deleteEvent_blocked[OF assms] by simp
next
  assume "find_event d i \<noteq> None \<and> has_dependents d i"
  then obtain ev where "find_event d i = Some ev" "has_dependents d i" by auto
  from deleteEvent_blocked[OF assms this]
  have e: "errors (fst (deleteEvent en d eventId False))
           = [blocked_message (length (lines_of d i)) (length (payments_of d i))
                (length (reviews_of d i)) (0 < length (invoices_of d i))]"
    by (simp add: createValidationResult_def)
  from blocked_message_counts[of "length (lines_of d i)" "length (payments_of d i)"
      "length (reviews_of d i)" "0 < length (invoices_of d i)"]
  obtain s p r where
    "blocked_message (length (lines_of d i)) (length (payments_of d i))
       (length (reviews_of d i)) (0 < length (invoices_of d i))
     = ''Cannot delete event. It has '' @ s @ '' services, '' @ p @ '' payments, ''
       @ r @ '' reviews, and '' @ (if 0 < length (invoices_of d i) then ''1'' else ''0'')
       @ '' invoice. Use forceDelete to delete anyway.''"
    "is_numeral_of s (length (lines_of d i))" "is_numeral_of p (length (payments_of d i))"
    "is_numeral_of r (length (reviews_of d i))"
    by blast
  then show "\<exists>s p r. errors (fst (deleteEvent en d eventId False))
                       = [''Cannot delete event. It has '' @ s @ '' services, '' @ p
                          @ '' payments, '' @ r @ '' reviews, and ''
                          @ (if 0 < length (invoices_of d i) then ''1'' else ''0'')
                          @ '' invoice. Use forceDelete to delete anyway.'']
                  \<and> is_numeral_of s (length (lines_of d i))
                  \<and> is_numeral_of p (length (payments_of d i))
                  \<and> is_numeral_of r (length (reviews_of d i))"
    unfolding e by (intro exI[of _ s] exI[of _ p] exI[of _ r]) simp
next
  assume "find_event d i \<noteq> None"
  then obtain ev where ev: "find_event d i = Some ev" by auto
  note f = deleteEvent_forced[OF assms ev]
  show "isValid (fst (deleteEvent en d eventId True))" by (rule f(1))
  show "find_event (snd (deleteEvent en d eventId True)) i = None"
    by (simp add: find_event_def f(2) find_None_filter filter_empty_conv)
  show "lines_of (snd (deleteEvent en d eventId True)) i = []"
    by (simp add: lines_of_def f(3) filter_empty_conv)
  show "payments_of (snd (deleteEvent en d eventId True)) i = []"
    by (simp add: payments_of_def f(4) filter_empty_conv)
  show "reviews_of (snd (deleteEvent en d eventId True)) i = []"
    by (simp add: reviews_of_def f(5) filter_empty_conv)
next
  assume "find_event d i \<noteq> None" and u: "length (invoices_of d i) \<le> 1"
  then obtain ev where ev: "find_event d i = Some ev" by auto
  show "invoices_of (snd (deleteEvent en d eventId True)) i = []"
    by (rule deleteEvent_forced_invoice(1)[OF assms ev u])
next
  assume "find_event d i \<noteq> None" and u: "length (invoices_of d i) \<le> 1"
  then obtain ev where ev: "find_event d i = Some ev" by auto
  show "details_of (snd (deleteEvent en d eventId True)) (invoices_of d i) = []"
    by (rule deleteEvent_forced_invoice(2)[OF assms ev u])
qed

theorem deleteEvent_dependency_guard_witness:
  "deleteEvent permissive booked_db 1 False
     = (createValidationResult False
          [''Cannot delete event. It has 1 services, 0 payments, 0 reviews, and 1 invoice. Use forceDelete to delete anyway.'']
          (Some (DeleteBlocked 1 0 0 True)), booked_db)
   \<and> isValid (fst (deleteEvent permissive booked_db 1 True))
   \<and> lines_of (snd (deleteEvent permissive booked_db 1 True)) 1 = []
   \<and> invoices_of (snd (deleteEvent permissive booked_db 1 True)) 1 = []
   \<and> details_of (snd (deleteEvent permissive booked_db 1 True)) (invoices_of booked_db 1) = []
   \<and> deleteEvent permissive booked_db 2 True
     = (createValidationResult False [''Event not found''] None, booked_db)"
proof -
  have p: "parseAndValidateId permissive 1 = Some 1" "parseAndValidateId permissive 2 = Some 2"
    by (simp_all add: permissive_def)
  have f: "find_event booked_db 1 \<noteq> None" "find_event booked_db 2 = None"
    by (simp_all add: find_event_def example_defs)
  have c: "length (lines_of booked_db 1) = 1" "length (payments_of booked_db 1) = 0"
    "length (reviews_of booked_db 1) = 0" "length (invoices_of booked_db 1) = 1"
    by (simp_all add: lines_of_def payments_of_def reviews_of_def invoices_of_def example_defs)
  have h: "has_dependents booked_db 1" by (simp add: has_dependents_def c)
  have m: "blocked_message (Suc 0) 0 0 True = ''Cannot delete event. It has 1 services, 0 payments, 0 reviews, and 1 invoice. Use forceDelete to delete anyway.''"
    by (simp add: blocked_message_def decimal.simps digit_char_def)
  show ?thesis
    using deleteEvent_dependency_guard[OF p(1), of booked_db False]
      deleteEvent_dependency_guard[OF p(2), of booked_db True] f h
    by (simp add: c m)
qed

subsection \<open>The loop over the service lines and the room checks\<close>

lemma add_services_Inl:
  "add_services en tx ls c = Inl r \<Longrightarrow> \<not> isValid r"
  by (induction ls arbitrary: c)
     (auto simp: Let_def createValidationResult_def split: if_splits)

lemma update_room_cost_Inl:
  "update_room_cost en tx ex i u = Inl r \<Longrightarrow> \<not> isValid r"
  by (auto simp: update_room_cost_def Let_def fail_def createValidationResult_def
      split: option.splits if_splits)

lemma create_room_cost_Inl:
  "create_room_cost en tx u = Inl r \<Longrightarrow> \<not> isValid r"
  by (auto simp: create_room_cost_def Let_def fail_def createValidationResult_def
      split: option.splits if_splits)

lemma line_cost_amended: "line_price tx line * line_quantity line = amended_line_cost tx line"
  by (cases "sl_custom_price line"; cases "sl_quantity line")
     (simp_all add: line_price_def line_quantity_def amended_line_cost_def)

lemma add_services_Inr:
  "add_services en tx ls c = Inr c' \<Longrightarrow> c' = c + sum_list (map (amended_line_cost tx) ls)"
proof (induction ls arbitrary: c)
  case Nil
  then show ?case by simp
next
  case (Cons a ls)
  from Cons.prems
  have "add_services en tx ls (c + amended_line_cost tx a) = Inr c'"
    by (auto simp: Let_def line_cost_amended split: if_splits)
  from Cons.IH[OF this] show ?case by simp
qed

lemma num_or_override: "num_or x 0 = (case x of Val c \<Rightarrow> c | _ \<Rightarrow> 0)"
  by (cases x) auto

lemma room_cost_claimed:
  "room_cost rm dur =
     (case r_base_price rm of None \<Rightarrow> 0 | Some b \<Rightarrow> b)
     + (case dur of
          Val h \<Rightarrow> (case hourly_rate rm of None \<Rightarrow> 0 | Some rate \<Rightarrow> rate) * h
        | _ \<Rightarrow> 0)"
  by (cases dur; cases "hourly_rate rm"; cases "r_base_price rm")
     (simp_all add: room_cost_def)

lemma create_room_cost_Inr:
  "create_room_cost en tx u = Inr c \<Longrightarrow>
   c = (case in_estimated_cost u of Val c \<Rightarrow> c | _ \<Rightarrow> 0) + claimed_room_cost tx u"
  by (auto simp: create_room_cost_def Let_def claimed_room_cost_def num_or_override
      room_cost_claimed split: option.splits if_splits)

subsection \<open>Runs on the example stores\<close>

lemma scenario_run:
  "createEvent permissive example_db scenario_input =
     (createValidationResult True [] (Some (EventData scenario_event 0)), scenario_db,
      [booking_notification 5 scenario_event])"
  by (simp add: run_defs example_defs input_defs stored_defs)

lemma plain_run:
  "createEvent permissive example_db plain_input =
     (createValidationResult True [] (Some (EventData (scenario_event\<lparr>estimated_cost := 200\<rparr>) 0)),
      plain_db, [booking_notification 5 scenario_event])"
  by (simp add: run_defs example_defs input_defs stored_defs)

subsection \<open>createEvent: the estimated cost\<close>

lemma create_services_events:
  "create_services tx i ls = Inr tx' \<Longrightarrow> events tx' = events tx"
  by (auto simp: create_services_def split: option.splits)

lemma create_invoice_events:
  "create_invoice en tx ev u c = Inr tx' \<Longrightarrow> events tx' = events tx"
  by (auto simp: create_invoice_def Let_def split: if_splits sum.splits)

lemma create_writes_event:
  assumes "create_writes en tx u c = Inr (r, tx', sent)"
  shows "\<exists>ev. r = createValidationResult True [] (Some (EventData ev 0))
          \<and> events tx' = events tx @ [ev] \<and> estimated_cost ev = c"
  using assms
  by (auto simp: create_writes_def Let_def
      split: jsval.splits option.splits sum.splits if_splits
      dest!: create_services_events create_invoice_events)

lemma createEvent_valid:
  assumes "isValid (fst (createEvent en d u))"
  shows "\<exists>cost1 cost. create_room_cost en d u = Inr cost1
          \<and> add_services en d (in_event_services u) cost1 = Inr cost
          \<and> create_writes en d u cost = Inr (createEvent en d u)"
  using assms
  by (auto simp: createEvent_def createEvent_tx_def Let_def fail_def handleError_def
      createValidationResult_def
      split: if_splits sum.splits dest: add_services_Inl create_room_cost_Inl)

lemma amended_is_claimed:
  "nonzero_lines ls \<Longrightarrow> map (amended_line_cost d) ls = map (claimed_line_cost d) ls"
  by (induction ls)
     (auto simp: nonzero_lines_def amended_line_cost_def claimed_line_cost_def
        split: jsval.splits)

text \<open>
  Claim C2, amended. For every successful createEvent the stored \<open>estimated_cost\<close> is the
  override (0 when absent), plus the room's base price and hourly rate times hours when a
  room is attached, plus for each service line the custom price when present and not 0,
  else the variation's base price, times the quantity, which is 1 when absent or 0. Where
  no line has a custom price of 0 or a quantity of 0 this is the cost of the claim as
  stated.
\<close>

theorem createEvent_estimated_cost:
  assumes "isValid (fst (createEvent en d u))"
  shows "\<exists>ev. fst (createEvent en d u) = createValidationResult True [] (Some (EventData ev 0))
          \<and> events (fst (snd (createEvent en d u))) = events d @ [ev]
          \<and> estimated_cost ev = amended_cost d u
          \<and> (nonzero_lines (in_event_services u) \<longrightarrow> estimated_cost ev = claimed_cost d u)"
proof -
  from createEvent_valid[OF assms] obtain cost1 cost where
    c1: "create_room_cost en d u = Inr cost1"
    and c2: "add_services en d (in_event_services u) cost1 = Inr cost"
    and w: "create_writes en d u cost = Inr (createEvent en d u)"
    by blast
  obtain r d' sent where out: "createEvent en d u = (r, d', sent)"
    by (cases "createEvent en d u") auto
  from create_writes_event[OF w[unfolded out]] obtain ev where
    ev: "r = createValidationResult True [] (Some (EventData ev 0))"
      "events d' = events d @ [ev]" "estimated_cost ev = cost"
    by blast
  have "cost = amended_cost d u"
    using create_room_cost_Inr[OF c1] add_services_Inr[OF c2]
    by (simp add: amended_cost_def)
  moreover have "nonzero_lines (in_event_services u) \<Longrightarrow> amended_cost d u = claimed_cost d u"
    by (simp add: amended_cost_def claimed_cost_def amended_is_claimed)
  ultimately show ?thesis
    using ev out by auto
qed

theorem createEvent_estimated_cost_witness:
  "isValid (fst (createEvent permissive example_db scenario_input))
   \<and> map estimated_cost (events (fst (snd (createEvent permissive example_db scenario_input))))
     = [240]
   \<and> claimed_cost example_db scenario_input = 240"
proof -
  have ok: "isValid (fst (createEvent permissive example_db scenario_input))"
    by (simp add: scenario_run createValidationResult_def)
  have nz: "nonzero_lines (in_event_services scenario_input)"
    by (simp add: nonzero_lines_def input_defs)
  have c: "claimed_cost example_db scenario_input = 240"
    by (simp add: claimed_cost_def claimed_room_cost_def claimed_line_cost_def input_defs
        find_room_def example_defs)
  from createEvent_estimated_cost[OF ok] nz obtain ev where
    "events (fst (snd (createEvent permissive example_db scenario_input)))
     = events example_db @ [ev]"
    "estimated_cost ev = claimed_cost example_db scenario_input"
    by blast
  with ok c show ?thesis by (simp add: example_db_def)
qed

text \<open>
  The claim as stated fails for a line whose custom price is 0: with variation 7 at base
  price 30, the line is charged 30, where the claim's rule gives 0.
\<close>

theorem createEvent_free_line_counterexample:
  "isValid (fst (createEvent permissive example_db free_input))
   \<and> map estimated_cost (events (fst (snd (createEvent permissive example_db free_input))))
     = [30]
   \<and> claimed_cost example_db free_input = 0
   \<and> map estimated_cost (events (fst (snd (createEvent permissive example_db free_input))))
     \<noteq> [claimed_cost example_db free_input]"
  by (simp add: run_defs example_defs input_defs stored_defs claimed_cost_def
      claimed_room_cost_def claimed_line_cost_def)

subsection \<open>createEvent: the invoice\<close>

text \<open>
  Claim C3 does not hold of the code. On the scenario of section 8 (room at base price 100
  and hourly rate 20 for two hours, one line of 2 at custom price 50) createEvent succeeds
  and writes an invoice of total 240 whose detail lines, one ROOM line of 100 and one
  SERVICE line of 100, sum to 200: the room line carries the base price only, and neither
  the hourly part nor an override has a line.
\<close>

theorem createEvent_invoice_total_not_details:
  "isValid (fst (createEvent permissive example_db scenario_input))
   \<and> map total_amount (invoices (fst (snd (createEvent permissive example_db scenario_input))))
     = [240]
   \<and> map subtotal
        (invoiceDetails (fst (snd (createEvent permissive example_db scenario_input))))
     = [Some 100, Some 100]
   \<and> details_total (fst (snd (createEvent permissive example_db scenario_input))) 1 = 200"
  by (simp add: run_defs example_defs input_defs stored_defs details_total_def subtotals_def)

lemma those_service_details:
  "those (map (service_detail tx iid) ls) = Some xs \<Longrightarrow>
   subtotals xs = sum_list (map (amended_line_cost tx) ls)"
proof (induction ls arbitrary: xs)
  case Nil
  then show ?case by (simp add: subtotals_def)
next
  case (Cons a ls)
  from Cons.prems obtain x ys where
    x: "service_detail tx iid a = Some x" and ys: "those (map (service_detail tx iid) ls) = Some ys"
    and xs: "xs = x # ys"
    by (auto split: option.splits)
  from x have "subtotal x = Some (amended_line_cost tx a)"
    by (auto simp: service_detail_def line_cost_amended split: option.splits)
  with Cons.IH[OF ys] xs show ?case by (simp add: subtotals_def)
qed

lemma invoice_lines_subtotals:
  assumes "invoice_lines tx iid (num_or_null (in_room_id u)) ls = Inr xs"
  shows "subtotals xs = room_base_price tx u + sum_list (map (amended_line_cost tx) ls)"
proof -
  from assms obtain rl sl where
    rl: "(case num_or_null (in_room_id u) of
            None \<Rightarrow> Inr []
          | Some r \<Rightarrow>
              (case find_room tx r of
                 None \<Rightarrow> Inl (TypeError (''Cannot read properties of null (reading ''
                   @ [CHR 0x27] @ ''room_name'' @ [CHR 0x27] @ '')''))
               | Some rm \<Rightarrow> Inr [room_detail iid rm])) = Inr rl"
    and sl: "those (map (service_detail tx iid) ls) = Some sl"
    and xs: "xs = rl @ sl"
    by (auto simp: invoice_lines_def split: sum.splits option.splits)
  from rl have "subtotals rl = room_base_price tx u"
    by (auto simp: room_base_price_def subtotals_def room_detail_def split: option.splits)
  with those_service_details[OF sl] xs show ?thesis
    by (simp add: subtotals_def)
qed

lemma amended_costs_frame:
  assumes "variations tx' = variations tx"
  shows "map (amended_line_cost tx') ls = map (amended_line_cost tx) ls"
proof -
  have fv: "find_variation tx' = find_variation tx"
    by (rule ext) (simp add: find_variation_def assms)
  have vb: "variationBasePrice tx' = variationBasePrice tx"
    by (rule ext) (unfold variationBasePrice_def fv, rule refl)
  have "amended_line_cost tx' = amended_line_cost tx"
    by (rule ext) (unfold amended_line_cost_def vb, rule refl)
  then show ?thesis by simp
qed

lemma room_base_price_frame:
  assumes "rooms tx' = rooms tx"
  shows "room_base_price tx' u = room_base_price tx u"
proof -
  have fr: "find_room tx' = find_room tx"
    by (rule ext) (simp add: find_room_def assms)
  show ?thesis by (unfold room_base_price_def fr, rule refl)
qed

lemma create_services_frame:
  "create_services tx i ls = Inr tx' \<Longrightarrow>
   rooms tx' = rooms tx \<and> variations tx' = variations tx \<and> invoices tx' = invoices tx
   \<and> invoiceDetails tx' = invoiceDetails tx \<and> next_invoice_id tx' = next_invoice_id tx"
  by (auto simp: create_services_def split: option.splits)

lemma create_invoice_written:
  assumes "create_invoice en tx ev u c = Inr tx'"
  shows "if c > 0
         then \<exists>inv xs. invoices tx' = invoices tx @ [inv] \<and> total_amount inv = c
                \<and> invoiceDetails tx' = invoiceDetails tx @ xs
                \<and> list_all (\<lambda>x. det_invoice_id x = invoice_id inv) xs
                \<and> subtotals xs
                   = room_base_price tx u
                     + sum_list (map (amended_line_cost tx) (in_event_services u))
         else invoices tx' = invoices tx \<and> invoiceDetails tx' = invoiceDetails tx"
proof (cases "c > 0")
  case False
  with assms show ?thesis by (simp add: create_invoice_def)
next
  case True
  with assms obtain xs where
    l: "invoice_lines tx (next_invoice_id tx) (num_or_null (in_room_id u))
          (in_event_services u) = Inr xs"
    and t: "tx' = tx\<lparr>invoices := invoices tx @
                 [\<lparr>invoice_id = next_invoice_id tx, invoice_number = now en,
                   total_amount = c, inv_event_id = event_id ev,
                   inv_account_id = account_id ev, inv_status = ''PENDING'',
                   issue_date = now en, due_date = now en + week_ms\<rparr>],
               invoiceDetails := invoiceDetails tx @ xs,
               next_invoice_id := next_invoice_id tx + 1\<rparr>"
    by (auto simp: create_invoice_def Let_def split: sum.splits)
  have ids: "list_all (\<lambda>x. det_invoice_id x = next_invoice_id tx) xs"
  proof -
    from l obtain rl sl where
      rl: "(case num_or_null (in_room_id u) of
            None \<Rightarrow> Inr []
          | Some r \<Rightarrow>
              (case find_room tx r of
                 None \<Rightarrow> Inl (TypeError (''Cannot read properties of null (reading ''
                   @ [CHR 0x27] @ ''room_name'' @ [CHR 0x27] @ '')''))
               | Some rm \<Rightarrow> Inr [room_detail (next_invoice_id tx) rm])) = Inr rl"
      and sl: "those (map (service_detail tx (next_invoice_id tx)) (in_event_services u)) = Some sl"
      and xs: "xs = rl @ sl"
      by (auto simp: invoice_lines_def split: sum.splits option.splits)
    from rl have a: "list_all (\<lambda>x. det_invoice_id x = next_invoice_id tx) rl"
      by (auto simp: room_detail_def split: option.splits)
    have "\<And>ys. those (map (service_detail tx (next_invoice_id tx)) zs) = Some ys \<Longrightarrow>
             list_all (\<lambda>x. det_invoice_id x = next_invoice_id tx) ys" for zs
      by (induction zs) (auto simp: service_detail_def split: option.splits)
    from this[OF sl] a xs show ?thesis by simp
  qed
  from True t ids invoice_lines_subtotals[OF l] show ?thesis by auto
qed

lemma create_writes_steps:
  assumes "create_writes en tx u c = Inr (r, tx', sent)"
  shows "\<exists>ev tx1 tx2. rooms tx1 = rooms tx \<and> variations tx1 = variations tx
           \<and> invoices tx1 = invoices tx \<and> invoiceDetails tx1 = invoiceDetails tx
           \<and> (if length (in_event_services u) > 0
                then create_services tx1 (event_id ev) (in_event_services u) else Inr tx1)
              = Inr tx2
           \<and> create_invoice en tx2 ev u c = Inr tx'"
proof (cases "in_event_name u")
  case (Val nm)
  show ?thesis
  proof (cases "event_date_of en (in_event_date u) (in_start_time u)")
    case None
    with Val assms show ?thesis by (simp add: create_writes_def)
  next
    case (Some ed)
    note ed = this
    show ?thesis
    proof (cases "status_on_create (in_status u)")
      case None
      with Val ed assms show ?thesis by (simp add: create_writes_def)
    next
      case (Some st)
      define ev where "ev = \<lparr>event_id = next_event_id tx, event_name = trim nm,
          description = trim_or_null (in_description u),
          start_time = time_or_null (in_start_time u),
          end_time = time_or_null (in_end_time u), event_date = ed, estimated_cost = c,
          final_cost = num_or_null (in_final_cost u),
          room_service_fee = num_or_null (in_room_service_fee u), status = st,
          account_id = num_or_null (in_account_id u),
          room_id = num_or_null (in_room_id u),
          event_type_id = num_or_null (in_event_type_id u)\<rparr>"
      define tx1 where "tx1 = tx\<lparr>events := events tx @ [ev],
          next_event_id := next_event_id tx + 1\<rparr>"
      have f: "rooms tx1 = rooms tx" "variations tx1 = variations tx"
        "invoices tx1 = invoices tx" "invoiceDetails tx1 = invoiceDetails tx"
        by (simp_all add: tx1_def)
      define step1 where "step1 = (if length (in_event_services u) > 0
          then create_services tx1 (event_id ev) (in_event_services u) else Inr tx1)"
      have cw: "create_writes en tx u c =
          (case step1 of
             Inl e \<Rightarrow> Inl e
           | Inr tx2 \<Rightarrow>
               (case create_invoice en tx2 ev u c of
                  Inl e \<Rightarrow> Inl e
                | Inr tx3 \<Rightarrow>
                    (case account_id ev of
                       None \<Rightarrow>
                         Inr (createValidationResult True [] (Some (EventData ev 0)), tx3, [])
                     | Some a \<Rightarrow>
                         (case createNotification en (booking_notification a ev) of
                            Some e \<Rightarrow> Inl e
                          | None \<Rightarrow>
                              Inr (createValidationResult True [] (Some (EventData ev 0)), tx3,
                                   [booking_notification a ev])))))"
        unfolding create_writes_def Let_def step1_def tx1_def ev_def
        by (simp add: Val ed Some)
      obtain tx2 where
        "(if length (in_event_services u) > 0
          then create_services tx1 (event_id ev) (in_event_services u) else Inr tx1) = Inr tx2"
        "create_invoice en tx2 ev u c = Inr tx'"
      proof (cases step1)
        case (Inl e)
        with assms cw show ?thesis by simp
      next
        case (Inr tx2)
        note s1 = this
        show ?thesis
        proof (cases "create_invoice en tx2 ev u c")
          case (Inl e)
          with assms cw s1 show ?thesis by simp
        next
          case (Inr tx3)
          with assms cw s1 have "tx3 = tx'"
            by (auto split: option.splits)
          with Inr s1 that show ?thesis by (simp add: step1_def)
        qed
      qed
      with f show ?thesis by blast
    qed
  qed
qed (use assms in \<open>simp_all add: create_writes_def\<close>)

text \<open>
  Property X3: what createEvent writes for the invoice. A successful createEvent whose
  cost is positive appends one invoice, with the stored cost as its total, and the detail
  lines of that invoice, whose subtotals sum to the base price of the attached room plus
  the cost of the service lines: the override and the hourly part of the cost have no
  line. With a cost that is not positive it writes no invoice and no detail line.
\<close>

theorem createEvent_invoice_written:
  assumes "isValid (fst (createEvent en d u))"
  shows "if amended_cost d u > 0
         then \<exists>inv xs.
                invoices (fst (snd (createEvent en d u))) = invoices d @ [inv]
              \<and> total_amount inv = amended_cost d u
              \<and> invoiceDetails (fst (snd (createEvent en d u))) = invoiceDetails d @ xs
              \<and> list_all (\<lambda>x. det_invoice_id x = invoice_id inv) xs
              \<and> subtotals xs
                 = room_base_price d u
                   + sum_list (map (amended_line_cost d) (in_event_services u))
         else invoices (fst (snd (createEvent en d u))) = invoices d
            \<and> invoiceDetails (fst (snd (createEvent en d u))) = invoiceDetails d"
proof -
  from createEvent_valid[OF assms] obtain cost1 cost where
    c1: "create_room_cost en d u = Inr cost1"
    and c2: "add_services en d (in_event_services u) cost1 = Inr cost"
    and w: "create_writes en d u cost = Inr (createEvent en d u)"
    by blast
  have cost: "cost = amended_cost d u"
    using create_room_cost_Inr[OF c1] add_services_Inr[OF c2]
    by (simp add: amended_cost_def)
  obtain r d' sent where out: "createEvent en d u = (r, d', sent)"
    by (cases "createEvent en d u") auto
  from create_writes_steps[OF w[unfolded out]] obtain ev tx1 tx2 where
    tx1: "rooms tx1 = rooms d" "variations tx1 = variations d" "invoices tx1 = invoices d"
      "invoiceDetails tx1 = invoiceDetails d"
    and s: "(if length (in_event_services u) > 0
             then create_services tx1 (event_id ev) (in_event_services u) else Inr tx1) = Inr tx2"
    and i0: "create_invoice en tx2 ev u cost = Inr d'"
    by blast
  from i0 out have i: "create_invoice en tx2 ev u cost = Inr (fst (snd (createEvent en d u)))"
    by simp
  from s tx1 have tx2: "rooms tx2 = rooms d" "variations tx2 = variations d"
    "invoices tx2 = invoices d" "invoiceDetails tx2 = invoiceDetails d"
    by (auto split: if_splits dest: create_services_frame)
  from create_invoice_written[OF i] show ?thesis
    unfolding cost tx2 room_base_price_frame[OF tx2(1)] amended_costs_frame[OF tx2(2)]
    by simp
qed

theorem createEvent_invoice_written_witness:
  "\<exists>inv xs.
     invoices (fst (snd (createEvent permissive example_db scenario_input))) = [inv]
   \<and> total_amount inv = 240
   \<and> invoiceDetails (fst (snd (createEvent permissive example_db scenario_input))) = xs
   \<and> subtotals xs = 200"
proof -
  have ok: "isValid (fst (createEvent permissive example_db scenario_input))"
    by (simp add: scenario_run createValidationResult_def)
  have c: "amended_cost example_db scenario_input = 240"
    by (simp add: amended_cost_def claimed_room_cost_def amended_line_cost_def input_defs
        find_room_def example_defs)
  have b: "room_base_price example_db scenario_input = 100"
    by (simp add: room_base_price_def input_defs find_room_def example_defs)
  have l: "sum_list (map (amended_line_cost example_db) (in_event_services scenario_input)) = 100"
    by (simp add: amended_line_cost_def input_defs)
  have e: "invoices example_db = []" "invoiceDetails example_db = []"
    by (simp_all add: example_db_def)
  from createEvent_invoice_written[OF ok] show ?thesis
    by (auto simp: c b l e)
qed

subsection \<open>createEvent: the notifier\<close>

text \<open>
  Claim C9 does not hold of the code. The notifier is awaited inside the callback of
  the transaction with nothing catching its rejection: with a notifier that delivers, the
  scenario commits the event, its line and its invoice and emits the notification; with
  one that rejects, the same request answers with a negative result and the store is as
  it was before.
\<close>

theorem createEvent_notifier_rejection_rolls_back:
  "createEvent permissive example_db scenario_input
     = (createValidationResult True [] (Some (EventData scenario_event 0)), scenario_db,
        [booking_notification 5 scenario_event])
   \<and> createEvent rejecting example_db scenario_input
     = (createValidationResult False [''notifier unavailable''] None, example_db, [])"
  by (simp add: run_defs example_defs input_defs stored_defs)

lemma create_writes_rejected:
  assumes r: "\<And>n. createNotification en n \<noteq> None"
    and a: "num_or_null (in_account_id u) = Some acc"
  shows "create_writes en tx u c \<noteq> Inr out"
proof (cases "in_event_name u")
  case (Val nm)
  show ?thesis
  proof (cases "event_date_of en (in_event_date u) (in_start_time u)")
    case None
    with Val show ?thesis by (simp add: create_writes_def)
  next
    case (Some ed)
    note ed = this
    show ?thesis
    proof (cases "status_on_create (in_status u)")
      case None
      with Val ed show ?thesis by (simp add: create_writes_def)
    next
      case (Some st)
      with Val ed a show ?thesis
        by (simp add: create_writes_def Let_def r split: sum.splits option.splits)
    qed
  qed
qed (simp_all add: create_writes_def)

text \<open>
  Property X2: the same for every request. When the notifier rejects and the request names
  an account, createEvent answers with a negative result, the store is as it was before
  and no notification is emitted.
\<close>

theorem createEvent_rejecting_notifier:
  assumes "\<And>n. createNotification en n \<noteq> None"
    and "num_or_null (in_account_id u) = Some acc"
  shows "\<not> isValid (fst (createEvent en d u)) \<and> snd (createEvent en d u) = (d, [])"
proof (cases "validateEventData en u = []")
  case False
  then show ?thesis by (simp add: createEvent_def Let_def createValidationResult_def)
next
  case True
  show ?thesis
  proof (cases "createEvent_tx en d u")
    case (Inl e)
    with True show ?thesis
      by (simp add: createEvent_def Let_def handleError_def createValidationResult_def)
  next
    case (Inr out)
    have w: "\<And>c. create_writes en d u c \<noteq> Inr out"
      by (rule create_writes_rejected[OF assms])
    from Inr w have "\<not> isValid (fst out) \<and> snd out = (d, [])"
      by (auto simp: createEvent_tx_def fail_def createValidationResult_def
          split: if_splits sum.splits dest: add_services_Inl create_room_cost_Inl)
    with True Inr show ?thesis by (simp add: createEvent_def Let_def)
  qed
qed

theorem createEvent_rejecting_notifier_witness:
  "\<not> isValid (fst (createEvent rejecting example_db scenario_input))
   \<and> snd (createEvent rejecting example_db scenario_input) = (example_db, [])"
proof -
  have r: "\<And>n. createNotification rejecting n \<noteq> None"
    by (simp add: rejecting_def permissive_def)
  have a: "num_or_null (in_account_id scenario_input) = Some 5"
    by (simp add: input_defs)
  show ?thesis using createEvent_rejecting_notifier[OF r a] .
qed

subsection \<open>updateEvent\<close>

lemma updateEvent_tx_outcome:
  assumes "updateEvent_tx en d ex i u = Inr (r, d')"
  shows "(\<not> isValid r \<and> d' = d) \<or>
         (\<exists>cost1 cost upd tx2.
            update_room_cost en d ex i u = Inr cost1
          \<and> add_services en d (in_event_services u) cost1 = Inr cost
          \<and> apply_update en u cost ex = Some upd
          \<and> replace_services (update_event i (\<lambda>e. upd) d) i (in_event_services u) = Inr tx2
          \<and> update_invoice tx2 ex i u cost = Inr d'
          \<and> r = createValidationResult True []
                 (Some (EventData upd
                    (length (filter (\<lambda>s. es_event_id s = i) (eventServices d))))))"
  using assms
  by (auto simp: updateEvent_tx_def update_writes_def Let_def fail_def
      createValidationResult_def
      split: if_splits sum.splits option.splits
      dest: add_services_Inl update_room_cost_Inl)

lemma updateEvent_outcome:
  "(\<not> isValid (fst (updateEvent en d eid u usr)) \<and> snd (updateEvent en d eid u usr) = d) \<or>
   (\<exists>i ex cost1 cost upd tx2.
       parseAndValidateId en eid = Some i \<and> find_event d i = Some ex
     \<and> policy_errors en ex usr = None \<and> validateEventData en u = []
     \<and> update_room_cost en d ex i u = Inr cost1
     \<and> add_services en d (in_event_services u) cost1 = Inr cost
     \<and> apply_update en u cost ex = Some upd
     \<and> replace_services (update_event i (\<lambda>e. upd) d) i (in_event_services u) = Inr tx2
     \<and> update_invoice tx2 ex i u cost = Inr (snd (updateEvent en d eid u usr))
     \<and> fst (updateEvent en d eid u usr)
        = createValidationResult True []
            (Some (EventData upd (length (filter (\<lambda>s. es_event_id s = i) (eventServices d))))))"
proof (cases "parseAndValidateId en eid")
  case None
  then show ?thesis
    by (simp add: updateEvent_def invalid_id_def handleError_def createValidationResult_def)
next
  case (Some i)
  note i = this
  show ?thesis
  proof (cases "find_event d i")
    case None
    with i show ?thesis
      by (simp add: updateEvent_def fail_def createValidationResult_def)
  next
    case (Some ex)
    note ex = this
    show ?thesis
    proof (cases "policy_errors en ex usr")
      case (Some errs)
      with i ex show ?thesis
        by (simp add: updateEvent_def createValidationResult_def)
    next
      case None
      note pol = this
      show ?thesis
      proof (cases "validateEventData en u = []")
        case False
        with i ex pol show ?thesis
          by (simp add: updateEvent_def Let_def createValidationResult_def)
      next
        case True
        note val = this
        show ?thesis
        proof (cases "updateEvent_tx en d ex i u")
          case (Inl e)
          with i ex pol val show ?thesis
            by (simp add: updateEvent_def Let_def handleError_def createValidationResult_def)
        next
          case (Inr out)
          obtain r d' where out: "out = (r, d')" by (cases out)
          have u: "updateEvent en d eid u usr = (r, d')"
            using i ex pol val Inr out by (simp add: updateEvent_def Let_def)
          from updateEvent_tx_outcome[OF Inr[unfolded out]] show ?thesis
            unfolding u using i ex pol val by auto
        qed
      qed
    qed
  qed
qed

lemma update_invoice_services:
  "update_invoice tx ex i u c = Inr tx' \<Longrightarrow> eventServices tx' = eventServices tx"
  by (auto simp: update_invoice_def Let_def split: if_splits option.splits sum.splits)

lemma supplied_num_or_null: "supplied x = num_or_null x"
  by (cases x) (simp_all add: supplied_def)

lemma new_service_row_line:
  assumes "new_service_row rid i line = Some row"
  shows "row_of_line i line row" and "event_service_id row = rid"
proof -
  from assms obtain sid where sid: "to_number (sl_service_id line) = Some sid"
    and row: "row = \<lparr>event_service_id = rid, es_event_id = i, es_service_id = sid,
                es_variation_id = num_or_null (sl_variation_id line),
                es_quantity = line_quantity line,
                es_custom_price = num_or_null (sl_custom_price line),
                es_notes = trim_or_null (sl_notes line),
                es_status = (case sl_status line of
                               Val st \<Rightarrow> if st \<noteq> [] then st else ''CONFIRMED''
                             | _ \<Rightarrow> ''CONFIRMED''),
                es_scheduled_time = time_or_null (sl_scheduled_time line),
                es_duration_hours = num_or_null (sl_duration_hours line)\<rparr>"
    by (auto simp: new_service_row_def split: option.splits)
  show "event_service_id row = rid" by (simp add: row)
  have c1: "case sl_service_id line of
              Val n \<Rightarrow> es_service_id row = n
            | Null \<Rightarrow> es_service_id row = 0
            | Undefined \<Rightarrow> False"
    using sid by (cases "sl_service_id line") (simp_all add: row)
  have c2: "es_quantity row = (case supplied (sl_quantity line) of None \<Rightarrow> 1 | Some q \<Rightarrow> q)"
    by (cases "sl_quantity line") (simp_all add: row line_quantity_def supplied_def)
  have c3: "case sl_notes line of
              Val s \<Rightarrow> (\<exists>t. stripped s t \<and> es_notes row = (if t = [] then None else Some t))
            | _ \<Rightarrow> es_notes row = None"
  proof (cases "sl_notes line")
    case (Val s)
    have "es_notes row = trim_or_null (Val s)" by (simp add: row Val)
    then have "\<exists>t. stripped s t \<and> es_notes row = (if t = [] then None else Some t)"
      by (simp only: trim_or_null_stripped)
    with Val show ?thesis by simp
  qed (simp_all add: row)
  have c4: "es_status row = (case sl_status line of
                               Val st \<Rightarrow> if st = [] then ''CONFIRMED'' else st
                             | _ \<Rightarrow> ''CONFIRMED'')"
    by (cases "sl_status line") (simp_all add: row)
  have c5: "es_scheduled_time row
            = (case sl_scheduled_time line of Val t \<Rightarrow> Some t | _ \<Rightarrow> None)"
    by (cases "sl_scheduled_time line") (simp_all add: row)
  have c6: "es_event_id row = i" "es_variation_id row = supplied (sl_variation_id line)"
    "es_custom_price row = supplied (sl_custom_price line)"
    "es_duration_hours row = supplied (sl_duration_hours line)"
    by (simp_all add: row supplied_num_or_null)
  from c1 c2 c3 c4 c5 c6 show "row_of_line i line row"
    unfolding row_of_line_def by (intro conjI)
qed

lemma those_rows:
  "those (map (\<lambda>(k, s). new_service_row (f + int k) i s) (enumerate n ls)) = Some rows
   \<Longrightarrow> list_all2 (row_of_line i) ls rows
       \<and> map event_service_id rows = map (\<lambda>k. f + int k) [n..<n + length ls]"
proof (induction ls arbitrary: n rows)
  case Nil
  then show ?case by simp
next
  case (Cons a ls)
  from Cons.prems obtain row rest where
    r: "new_service_row (f + int n) i a = Some row"
    and t: "those (map (\<lambda>(k, s). new_service_row (f + int k) i s) (enumerate (Suc n) ls))
            = Some rest"
    and rows: "rows = row # rest"
    by (auto split: option.splits)
  have u: "[n..<n + length (a # ls)] = n # [Suc n..<Suc n + length ls]"
    by (simp del: upt_Suc add: upt_conv_Cons)
  from Cons.IH[OF t] new_service_row_line[OF r] rows show ?case
    unfolding u by simp
qed

lemma new_service_rows_lines:
  "new_service_rows f i ls = Some rows \<Longrightarrow>
   list_all2 (row_of_line i) ls rows
   \<and> map event_service_id rows = map (\<lambda>k. f + int k) [0..<length ls]"
  unfolding new_service_rows_def using those_rows[of f i 0 ls rows] by simp


lemma replace_services_empty:
  "replace_services tx i [] = Inr tx"
  by (simp add: replace_services_def)

lemma replace_services_lines:
  assumes "ls \<noteq> []" "replace_services tx i ls = Inr tx'"
  shows "\<exists>rows. new_service_rows (next_event_service_id tx) i ls = Some rows
          \<and> eventServices tx' = filter (\<lambda>s. es_event_id s \<noteq> i) (eventServices tx) @ rows"
  using assms
  by (auto simp: replace_services_def create_services_def split: option.splits)

text \<open>
  Claim C5. An updateEvent that supplies no service lines leaves the stored service lines
  as they were. A successful one that supplies lines leaves the lines of the other events,
  drops every line of this event and appends exactly one row per supplied line, in order:
  the rows take the next identifiers of the store in sequence, and each row carries the
  event, the service of its line, the variation, custom price and duration when supplied,
  the quantity or 1, the notes with their white space stripped or none when nothing is
  left, the status or CONFIRMED, and the scheduled time. An updateEvent that fails leaves
  the lines as they were.
\<close>

theorem updateEvent_service_lines:
  "(in_event_services u = [] \<longrightarrow>
      eventServices (snd (updateEvent en d eid u usr)) = eventServices d)
   \<and> (in_event_services u \<noteq> [] \<and> isValid (fst (updateEvent en d eid u usr)) \<longrightarrow>
        (\<exists>i rows. parseAndValidateId en eid = Some i
           \<and> eventServices (snd (updateEvent en d eid u usr))
              = filter (\<lambda>s. es_event_id s \<noteq> i) (eventServices d) @ rows
           \<and> new_service_rows (next_event_service_id d) i (in_event_services u) = Some rows
           \<and> list_all2 (row_of_line i) (in_event_services u) rows
           \<and> map event_service_id rows
              = map (\<lambda>k. next_event_service_id d + int k)
                  [0..<length (in_event_services u)]))
   \<and> (\<not> isValid (fst (updateEvent en d eid u usr)) \<longrightarrow>
        eventServices (snd (updateEvent en d eid u usr)) = eventServices d)"
proof -
  consider (same) "\<not> isValid (fst (updateEvent en d eid u usr))"
      "snd (updateEvent en d eid u usr) = d"
    | (written) i ex cost upd tx2 where
      "parseAndValidateId en eid = Some i"
      "replace_services (update_event i (\<lambda>e. upd) d) i (in_event_services u) = Inr tx2"
      "update_invoice tx2 ex i u cost = Inr (snd (updateEvent en d eid u usr))"
      "isValid (fst (updateEvent en d eid u usr))"
    using updateEvent_outcome[of en d eid u usr]
    by (auto simp: createValidationResult_def)
  then show ?thesis
  proof cases
    case same
    then show ?thesis by simp
  next
    case written
    have sv: "eventServices (snd (updateEvent en d eid u usr)) = eventServices tx2"
      using update_invoice_services[OF written(3)] .
    show ?thesis
    proof (cases "in_event_services u = []")
      case True
      with written(2) have "tx2 = update_event i (\<lambda>e. upd) d"
        by (simp add: replace_services_empty)
      with sv True written(4) show ?thesis by (simp add: update_event_def)
    next
      case False
      from replace_services_lines[OF False written(2)] obtain rows where
        r: "new_service_rows (next_event_service_id d) i (in_event_services u) = Some rows"
        "eventServices tx2 = filter (\<lambda>s. es_event_id s \<noteq> i) (eventServices d) @ rows"
        by (auto simp: update_event_def)
      from new_service_rows_lines[OF r(1)] have
        l: "list_all2 (row_of_line i) (in_event_services u) rows"
        and n: "map event_service_id rows
                = map (\<lambda>k. next_event_service_id d + int k)
                    [0..<length (in_event_services u)]"
        by simp_all
      have "\<exists>i rows. parseAndValidateId en eid = Some i
           \<and> eventServices (snd (updateEvent en d eid u usr))
              = filter (\<lambda>s. es_event_id s \<noteq> i) (eventServices d) @ rows
           \<and> new_service_rows (next_event_service_id d) i (in_event_services u) = Some rows
           \<and> list_all2 (row_of_line i) (in_event_services u) rows
           \<and> map event_service_id rows
              = map (\<lambda>k. next_event_service_id d + int k)
                  [0..<length (in_event_services u)]"
        using written(1) sv r l n by (intro exI[of _ i] exI[of _ rows]) simp
      with False written(4) show ?thesis by simp
    qed
  qed
qed

lemma noted_line_strip: "stripped [32, 104, 105, 160] t \<Longrightarrow> t = [104, 105]"
  using stripped_unique[of "[32, 104, 105, 160]" t] by (simp add: trim_def is_space_def)

theorem updateEvent_service_lines_witness:
  "eventServices (snd (updateEvent permissive plain_db 1 noted_input None))
     = [\<lparr>event_service_id = 2, es_event_id = 1, es_service_id = 2, es_variation_id = Some 7,
         es_quantity = 3, es_custom_price = Some 50, es_notes = Some [104, 105],
         es_status = ''CONFIRMED'', es_scheduled_time = None, es_duration_hours = None\<rparr>]
   \<and> eventServices (snd (updateEvent permissive plain_db 1 retitled_input None))
     = eventServices plain_db"
proof -
  have ok: "isValid (fst (updateEvent permissive plain_db 1 noted_input None))"
    by (simp add: run_defs example_defs input_defs stored_defs)
  have ls: "in_event_services noted_input = [noted_line]" "in_event_services retitled_input = []"
    by (simp_all add: input_defs)
  have old: "eventServices plain_db = [scenario_row]" "es_event_id scenario_row = 1"
    "next_event_service_id plain_db = 2"
    by (simp_all add: stored_defs example_defs)
  from updateEvent_service_lines[of noted_input permissive plain_db 1 None] ok ls
  obtain i rows where
    i: "parseAndValidateId permissive 1 = Some i"
    and e: "eventServices (snd (updateEvent permissive plain_db 1 noted_input None))
            = filter (\<lambda>s. es_event_id s \<noteq> i) (eventServices plain_db) @ rows"
    and r: "list_all2 (row_of_line i) [noted_line] rows"
    and n: "map event_service_id rows = map (\<lambda>k. next_event_service_id plain_db + int k) [0..<1]"
    by auto
  from i have i1: "i = 1" by (simp add: permissive_def)
  from r obtain row where rows: "rows = [row]" and row: "row_of_line 1 noted_line row"
    unfolding i1 by (auto simp: list_all2_Cons1)
  from n rows old have id: "event_service_id row = 2" by simp
  from row obtain t where t: "stripped [32, 104, 105, 160] t"
    and nt: "es_notes row = (if t = [] then None else Some t)"
    by (auto simp: row_of_line_def input_defs)
  from noted_line_strip[OF t] nt have nts: "es_notes row = Some [104, 105]" by simp
  from row have rest: "es_event_id row = 1" "es_service_id row = 2"
    "es_variation_id row = Some 7" "es_quantity row = 3" "es_custom_price row = Some 50"
    "es_status row = ''CONFIRMED''" "es_scheduled_time row = None"
    "es_duration_hours row = None"
    by (simp_all add: row_of_line_def supplied_def input_defs)
  have "row = \<lparr>event_service_id = 2, es_event_id = 1, es_service_id = 2,
         es_variation_id = Some 7, es_quantity = 3, es_custom_price = Some 50,
         es_notes = Some [104, 105], es_status = ''CONFIRMED'', es_scheduled_time = None,
         es_duration_hours = None\<rparr>"
    using id nts rest by (cases row) simp
  then have "eventServices (snd (updateEvent permissive plain_db 1 noted_input None))
     = [\<lparr>event_service_id = 2, es_event_id = 1, es_service_id = 2, es_variation_id = Some 7,
         es_quantity = 3, es_custom_price = Some 50, es_notes = Some [104, 105],
         es_status = ''CONFIRMED'', es_scheduled_time = None, es_duration_hours = None\<rparr>]"
    using e rows i1 old by simp
  moreover have "eventServices (snd (updateEvent permissive plain_db 1 retitled_input None))
     = eventServices plain_db"
    using updateEvent_service_lines[of retitled_input permissive plain_db 1 None] ls by simp
  ultimately show ?thesis by simp
qed

text \<open>
  Claim C4 does not hold of the code. The event of \<open>plain_db\<close> has room 1 (base price 100)
  and one line of 2 at 50, stored cost 200. An update that supplies a new line set, one
  line of 3 at 50, keeps the room and stores 350: the new lines are added to the cost
  stored before, which already held the old lines and the room. The rule of section 4.3 on
  the resulting room and lines gives 250.
\<close>

theorem updateEvent_cost_patched_not_recomputed:
  "map estimated_cost (events plain_db) = [200]
   \<and> isValid (fst (updateEvent permissive plain_db 1 relined_input None))
   \<and> map estimated_cost (events (snd (updateEvent permissive plain_db 1 relined_input None)))
     = [350]
   \<and> map room_id (events (snd (updateEvent permissive plain_db 1 relined_input None)))
     = [Some 1]
   \<and> map es_quantity (eventServices (snd (updateEvent permissive plain_db 1 relined_input None)))
     = [3]
   \<and> claimed_cost plain_db (plain_input\<lparr>in_event_services := [bigger_line]\<rparr>) = 250"
  by (simp add: run_defs example_defs input_defs stored_defs claimed_cost_def
      claimed_room_cost_def claimed_line_cost_def)

text \<open>
  Claim C6 does not hold of the code for \<open>event_date\<close>. The event of \<open>booked_db\<close> was booked
  with day 1 as its event date and starts at 10:00 of day 0. An update that gives a name,
  the same start and an end, and no event date, succeeds and overwrites the stored event
  date with midnight of the start.
\<close>

theorem updateEvent_event_date_overwritten:
  "in_event_date retitled_input = Undefined
   \<and> map event_date (events booked_db) = [86400000]
   \<and> isValid (fst (updateEvent permissive booked_db 1 retitled_input None))
   \<and> map event_date (events (snd (updateEvent permissive booked_db 1 retitled_input None)))
     = [0]"
  by (simp add: run_defs example_defs input_defs stored_defs)

lemma replace_services_events:
  "replace_services tx i ls = Inr tx' \<Longrightarrow> events tx' = events tx"
  by (auto simp: replace_services_def create_services_def split: if_splits option.splits)

lemma update_invoice_events:
  "update_invoice tx ex i u c = Inr tx' \<Longrightarrow> events tx' = events tx"
  by (auto simp: update_invoice_def Let_def split: if_splits option.splits sum.splits)

lemma find_replaced:
  "find (\<lambda>e. event_id e = i) xs = Some old \<Longrightarrow> event_id new = i \<Longrightarrow>
   find (\<lambda>e. event_id e = i) (map (\<lambda>e. if event_id e = i then new else e) xs) = Some new"
  by (induction xs) (auto split: if_splits)

lemma apply_update_id: "apply_update en u c old = Some new \<Longrightarrow> event_id new = event_id old"
  by (auto simp: apply_update_def split: option.splits)

lemma find_event_id: "find_event d i = Some e \<Longrightarrow> event_id e = i"
  by (auto simp: find_event_def dest: find_Some_iff[THEN iffD1])

lemma apply_update_fields:
  assumes "apply_update en u c old = Some new"
  shows "event_name new = (case in_event_name u of Val nm \<Rightarrow> trim nm | _ \<Rightarrow> event_name old)"
    and "description new = keep_or (in_description u) trim_or_null (description old)"
    and "start_time new = keep_or (in_start_time u) time_or_null (start_time old)"
    and "end_time new = keep_or (in_end_time u) time_or_null (end_time old)"
    and "final_cost new = keep_or (in_final_cost u) number_of (final_cost old)"
    and "room_service_fee new = keep_or (in_room_service_fee u) number_of (room_service_fee old)"
    and "account_id new = keep_or (in_account_id u) num_or_null (account_id old)"
    and "room_id new = keep_or (in_room_id u) num_or_null (room_id old)"
    and "event_type_id new = keep_or (in_event_type_id u) num_or_null (event_type_id old)"
    and "event_date_of en (in_event_date u) (in_start_time u) = Some (event_date new)"
    and "estimated_cost new = c"
    and "in_status u = Undefined \<Longrightarrow> status new = status old"
proof -
  from assms obtain ed st where
    ed: "event_date_of en (in_event_date u) (in_start_time u) = Some ed"
    and st: "(case in_status u of Undefined \<Rightarrow> Some (status old) | Null \<Rightarrow> None
              | Val s \<Rightarrow> parse_status s) = Some st"
    by (auto simp: apply_update_def split: option.splits)
  from assms have n: "new = \<lparr>event_id = event_id old,
      event_name = (case in_event_name u of Val nm \<Rightarrow> trim nm | _ \<Rightarrow> event_name old),
      description = keep_or (in_description u) trim_or_null (description old),
      start_time = keep_or (in_start_time u) time_or_null (start_time old),
      end_time = keep_or (in_end_time u) time_or_null (end_time old),
      event_date = ed, estimated_cost = c,
      final_cost = keep_or (in_final_cost u) number_of (final_cost old),
      room_service_fee = keep_or (in_room_service_fee u) number_of (room_service_fee old),
      status = st,
      account_id = keep_or (in_account_id u) num_or_null (account_id old),
      room_id = keep_or (in_room_id u) num_or_null (room_id old),
      event_type_id = keep_or (in_event_type_id u) num_or_null (event_type_id old)\<rparr>"
    unfolding apply_update_def ed st by simp
  show "event_name new = (case in_event_name u of Val nm \<Rightarrow> trim nm | _ \<Rightarrow> event_name old)"
    and "description new = keep_or (in_description u) trim_or_null (description old)"
    and "start_time new = keep_or (in_start_time u) time_or_null (start_time old)"
    and "end_time new = keep_or (in_end_time u) time_or_null (end_time old)"
    and "final_cost new = keep_or (in_final_cost u) number_of (final_cost old)"
    and "room_service_fee new = keep_or (in_room_service_fee u) number_of (room_service_fee old)"
    and "account_id new = keep_or (in_account_id u) num_or_null (account_id old)"
    and "room_id new = keep_or (in_room_id u) num_or_null (room_id old)"
    and "event_type_id new = keep_or (in_event_type_id u) num_or_null (event_type_id old)"
    and "estimated_cost new = c"
    by (simp_all add: n)
  show "event_date_of en (in_event_date u) (in_start_time u) = Some (event_date new)"
    by (simp add: n ed)
  show "in_status u = Undefined \<Longrightarrow> status new = status old"
    using st by (simp add: n)
qed

lemma keep_or_Undefined: "keep_or Undefined f old = old"
  by (simp add: keep_or_def)

lemma update_room_cost_Inr:
  "update_room_cost en tx old i u = Inr c \<Longrightarrow> c = update_base_cost tx old u"
  by (auto simp: update_room_cost_def update_base_cost_def Let_def
      split: option.splits if_splits)

lemma updateEvent_stored:
  assumes "isValid (fst (updateEvent en d eid u usr))"
    and "parseAndValidateId en eid = Some i" and "find_event d i = Some old"
  shows "\<exists>cost1 cost upd.
           update_room_cost en d old i u = Inr cost1
         \<and> add_services en d (in_event_services u) cost1 = Inr cost
         \<and> apply_update en u cost old = Some upd
         \<and> find_event (snd (updateEvent en d eid u usr)) i = Some upd"
proof -
  from updateEvent_outcome[of en d eid u usr] assms obtain cost1 cost upd tx2 where
    c1: "update_room_cost en d old i u = Inr cost1"
    and c2: "add_services en d (in_event_services u) cost1 = Inr cost"
    and a: "apply_update en u cost old = Some upd"
    and r: "replace_services (update_event i (\<lambda>e. upd) d) i (in_event_services u) = Inr tx2"
    and v: "update_invoice tx2 old i u cost = Inr (snd (updateEvent en d eid u usr))"
    by auto
  have "events (snd (updateEvent en d eid u usr))
        = map (\<lambda>e. if event_id e = i then upd else e) (events d)"
    using update_invoice_events[OF v] replace_services_events[OF r]
    by (simp add: update_event_def)
  moreover have "event_id upd = i"
    using apply_update_id[OF a] find_event_id[OF assms(3)] by simp
  ultimately have "find_event (snd (updateEvent en d eid u usr)) i = Some upd"
    using assms(3) by (simp add: find_event_def find_replaced)
  with c1 c2 a show ?thesis by blast
qed

text \<open>
  Property X1: the fields an update leaves alone. After a successful updateEvent the
  stored event keeps its name, description, start, end, final cost, room service fee,
  status, account, room and event type wherever the request does not give the property;
  its event date is the one given, else midnight of the start the request gives.
\<close>

theorem updateEvent_untouched_fields:
  assumes "isValid (fst (updateEvent en d eid u usr))"
    and "parseAndValidateId en eid = Some i" and "find_event d i = Some old"
  shows "\<exists>new. find_event (snd (updateEvent en d eid u usr)) i = Some new
       \<and> (in_event_name u = Undefined \<longrightarrow> event_name new = event_name old)
       \<and> (in_description u = Undefined \<longrightarrow> description new = description old)
       \<and> (in_start_time u = Undefined \<longrightarrow> start_time new = start_time old)
       \<and> (in_end_time u = Undefined \<longrightarrow> end_time new = end_time old)
       \<and> (in_final_cost u = Undefined \<longrightarrow> final_cost new = final_cost old)
       \<and> (in_room_service_fee u = Undefined \<longrightarrow> room_service_fee new = room_service_fee old)
       \<and> (in_status u = Undefined \<longrightarrow> status new = status old)
       \<and> (in_account_id u = Undefined \<longrightarrow> account_id new = account_id old)
       \<and> (in_room_id u = Undefined \<longrightarrow> room_id new = room_id old)
       \<and> (in_event_type_id u = Undefined \<longrightarrow> event_type_id new = event_type_id old)
       \<and> event_date_of en (in_event_date u) (in_start_time u) = Some (event_date new)"
proof -
  from updateEvent_stored[OF assms] obtain cost upd where
    a: "apply_update en u cost old = Some upd"
    and f: "find_event (snd (updateEvent en d eid u usr)) i = Some upd"
    by blast
  note fl = apply_update_fields[OF a]
  from f show ?thesis
    by (auto simp: fl(1-10) keep_or_Undefined intro: fl(12))
qed

theorem updateEvent_untouched_fields_witness:
  "map description (events (snd (updateEvent permissive booked_db 1 retitled_input None)))
     = [None]
   \<and> map account_id (events (snd (updateEvent permissive booked_db 1 retitled_input None)))
     = [Some 5]
   \<and> map event_date (events (snd (updateEvent permissive booked_db 1 retitled_input None)))
     = [0]"
proof -
  have ok: "isValid (fst (updateEvent permissive booked_db 1 retitled_input None))"
    by (simp add: run_defs example_defs input_defs stored_defs)
  have p: "parseAndValidateId permissive 1 = Some 1" by (simp add: permissive_def)
  have f: "find_event booked_db 1 = Some booked_event"
    by (simp add: find_event_def example_defs)
  have u: "in_description retitled_input = Undefined" "in_account_id retitled_input = Undefined"
    "event_date_of permissive (in_event_date retitled_input) (in_start_time retitled_input)
     = Some 0"
    by (simp_all add: input_defs event_date_of_def permissive_def)
  have o: "description booked_event = None" "account_id booked_event = Some 5"
    by (simp_all add: booked_event_def)
  from updateEvent_untouched_fields[OF ok p f] u o obtain new where
    n: "find_event (snd (updateEvent permissive booked_db 1 retitled_input None)) 1 = Some new"
    "description new = None" "account_id new = Some 5" "event_date new = 0"
    by auto
  have "length (events (snd (updateEvent permissive booked_db 1 retitled_input None))) = 1"
    by (simp add: run_defs example_defs input_defs stored_defs)
  then obtain e where
    e: "events (snd (updateEvent permissive booked_db 1 retitled_input None)) = [e]"
    by (auto simp: length_Suc_conv)
  with n(1) have "e = new" by (auto simp: find_event_def split: if_splits)
  with e n show ?thesis by simp
qed

text \<open>
  Property X4: the cost an update stores. After a successful updateEvent the stored cost
  is the price of the room when the request changes the room, else the override or,
  without one, the cost stored before, plus the cost of the service lines of the request.
\<close>

theorem updateEvent_estimated_cost:
  assumes "isValid (fst (updateEvent en d eid u usr))"
    and "parseAndValidateId en eid = Some i" and "find_event d i = Some old"
  shows "\<exists>new. find_event (snd (updateEvent en d eid u usr)) i = Some new
       \<and> estimated_cost new
          = update_base_cost d old u
            + sum_list (map (amended_line_cost d) (in_event_services u))"
proof -
  from updateEvent_stored[OF assms] obtain cost1 cost upd where
    c1: "update_room_cost en d old i u = Inr cost1"
    and c2: "add_services en d (in_event_services u) cost1 = Inr cost"
    and a: "apply_update en u cost old = Some upd"
    and f: "find_event (snd (updateEvent en d eid u usr)) i = Some upd"
    by blast
  from update_room_cost_Inr[OF c1] add_services_Inr[OF c2] apply_update_fields(11)[OF a] f
  show ?thesis by simp
qed

theorem updateEvent_estimated_cost_witness:
  "map estimated_cost (events (snd (updateEvent permissive plain_db 1 relined_input None)))
   = [350]
   \<and> update_base_cost plain_db (scenario_event\<lparr>estimated_cost := 200\<rparr>) relined_input = 200"
proof -
  have ok: "isValid (fst (updateEvent permissive plain_db 1 relined_input None))"
    by (simp add: run_defs example_defs input_defs stored_defs)
  have p: "parseAndValidateId permissive 1 = Some 1" by (simp add: permissive_def)
  have f: "find_event plain_db 1 = Some (scenario_event\<lparr>estimated_cost := 200\<rparr>)"
    by (simp add: find_event_def example_defs stored_defs)
  have b: "update_base_cost plain_db (scenario_event\<lparr>estimated_cost := 200\<rparr>) relined_input = 200"
    by (simp add: update_base_cost_def input_defs)
  have l: "sum_list (map (amended_line_cost plain_db) (in_event_services relined_input)) = 150"
    by (simp add: amended_line_cost_def input_defs)
  from updateEvent_estimated_cost[OF ok p f] b l obtain new where
    n: "find_event (snd (updateEvent permissive plain_db 1 relined_input None)) 1 = Some new"
    "estimated_cost new = 350"
    by auto
  have "length (events (snd (updateEvent permissive plain_db 1 relined_input None))) = 1"
    by (simp add: run_defs example_defs input_defs stored_defs)
  then obtain e where
    e: "events (snd (updateEvent permissive plain_db 1 relined_input None)) = [e]"
    by (auto simp: length_Suc_conv)
  with n(1) have "e = new" by (auto simp: find_event_def split: if_splits)
  with e n b show ?thesis by simp
qed

subsection \<open>getAllEvents\<close>

lemma parse_status_name: "(parse_status s = Some st) = (s = status_name st)"
  by (cases st) (auto simp: parse_status_def EVENT_STATUSES_def status_name_def split: if_splits)

lemma status_name_inj: "status_name a = status_name b \<Longrightarrow> a = b"
  using parse_status_name[of "status_name a" a] parse_status_name[of "status_name a" b]
  by simp

lemma id_filter_wanted:
  assumes "id_filter en x = Inr w"
  shows "(case w of None \<Rightarrow> True | Some a \<Rightarrow> col = Some a) = wanted_id en x col"
proof (cases x)
  case (Val n)
  show ?thesis
  proof (cases "n = 0")
    case True
    with assms Val show ?thesis by (simp add: id_filter_def wanted_id_def)
  next
    case False
    with assms Val show ?thesis
      by (cases "parseAndValidateId en n") (auto simp: id_filter_def wanted_id_def)
  qed
qed (insert assms, auto simp: id_filter_def wanted_id_def)

lemma status_filter_wanted:
  assumes "status_filter x = Inr w"
  shows "opt_matches w st
         = (case x of Val s \<Rightarrow> s = [] \<or> s = status_name st | _ \<Rightarrow> True)"
proof (cases x)
  case (Val s)
  show ?thesis
  proof (cases "s = []")
    case True
    with assms Val show ?thesis by (simp add: status_filter_def opt_matches_def)
  next
    case False
    with assms Val obtain v where v: "parse_status s = Some v" "w = Some v"
      by (auto simp: status_filter_def split: option.splits)
    from v(1) have "s = status_name v" by (simp only: parse_status_name)
    with v(2) Val False show ?thesis
      by (auto simp: opt_matches_def dest: status_name_inj)
  qed
qed (insert assms, auto simp: status_filter_def opt_matches_def)

lemma start_in_range_bounds:
  "start_in_range lo hi st =
     ((case lo of Val a \<Rightarrow> (case st of None \<Rightarrow> False | Some t \<Rightarrow> a \<le> t) | _ \<Rightarrow> True)
      \<and> (case hi of Val b \<Rightarrow> (case st of None \<Rightarrow> False | Some t \<Rightarrow> t \<le> b) | _ \<Rightarrow> True))"
  by (simp add: start_in_range_def)

lemma stripped_ex: "(\<exists>t. stripped s t \<and> P t) = P (trim s)"
  using stripped_trim[of s] stripped_unique[of s] by blast

lemma search_matches_stripped:
  "search_matches en q e =
     (case q of
        Val s \<Rightarrow>
          (\<exists>t. stripped s t
              \<and> (t = [] \<or> contains_insensitive en (event_name e) t
                  \<or> (case description e of
                        None \<Rightarrow> False
                      | Some dsc \<Rightarrow> contains_insensitive en dsc t)))
      | _ \<Rightarrow> True)"
proof (cases q)
  case (Val s)
  show ?thesis
    unfolding Val search_matches_def jsval.case
    by (subst stripped_ex) simp
qed (simp_all add: search_matches_def)

lemma getAllEvents_found:
  assumes ok: "isValid (getAllEvents en d fl)"
    and vp: "validatePagination en (case f_page fl of None \<Rightarrow> 1 | Some p \<Rightarrow> p)
           (case f_limit fl of None \<Rightarrow> 20 | Some l \<Rightarrow> l) = (p, l, errs)"
  shows "\<exists>found.
           skip_take ((p - 1) * l) l
             (order_rows en (fst (buildSortOrder (sortBy fl) (sortOrder fl)))
                (snd (buildSortOrder (sortBy fl) (sortOrder fl)))
                (filter (event_matches en fl) (events d))) = Inr found
         \<and> data (getAllEvents en d fl)
           = Some (EventPage
               (map (\<lambda>e. (e, if includeEventServices fl then length (lines_of d (event_id e))
                              else 0)) found)
               \<lparr>pg_page = p, pg_limit = l,
                totalCount = length (filter (event_matches en fl) (events d)),
                totalPages = total_pages (length (filter (event_matches en fl) (events d))) l,
                hasNextPage = page_before p (length (filter (event_matches en fl) (events d))) l,
                hasPreviousPage = (p > 1)\<rparr>)"
proof -
  from ok vp obtain wa wr wt ws where
    w: "id_filter en (f_account_id fl) = Inr wa" "id_filter en (f_room_id fl) = Inr wr"
       "id_filter en (f_event_type_id fl) = Inr wt" "status_filter (f_status fl) = Inr ws"
    by (auto simp: getAllEvents_def Let_def createValidationResult_def handleError_def
        split: sum.splits if_splits)
  have m: "(\<lambda>e. (case wa of None \<Rightarrow> True | Some a \<Rightarrow> account_id e = Some a) \<and>
                 (case wr of None \<Rightarrow> True | Some r \<Rightarrow> room_id e = Some r) \<and>
                 (case wt of None \<Rightarrow> True | Some t \<Rightarrow> event_type_id e = Some t) \<and>
                 opt_matches ws (status e) \<and>
                 start_in_range (dateMin fl) (dateMax fl) (start_time e) \<and>
                 search_matches en (search fl) e) = event_matches en fl"
    by (rule ext)
       (simp only: id_filter_wanted[OF w(1)] id_filter_wanted[OF w(2)] id_filter_wanted[OF w(3)]
          status_filter_wanted[OF w(4)] start_in_range_bounds search_matches_stripped
          event_matches_def conj_assoc)
  from ok vp w show ?thesis
    unfolding getAllEvents_def Let_def
    by (simp add: m createValidationResult_def handleError_def lines_of_def
        split: sum.splits if_splits)
qed

lemma buildSortOrder_fields:
  "fst (buildSortOrder sb so) \<in> set sort_fields"
  "snd (buildSortOrder sb so) \<in> set [''asc'', ''desc'']"
  by (simp_all add: buildSortOrder_def sort_fields_def validSortFields_def)

text \<open>
  Claim C10. A successful getAllEvents with validated page \<open>p \<ge> 1\<close> and limit \<open>l \<ge> 1\<close>
  has as \<open>totalCount\<close> the number of events of the store that the filters ask for, and
  returns at most \<open>l\<close> events: the events \<open>(p - 1) * l\<close> to \<open>p * l - 1\<close> of the matching
  events of the store in the order asked for, each with the number of its service lines
  when they are included. Its pagination has \<open>totalPages\<close> the ceiling of
  \<open>totalCount / l\<close> (the least number of pages of \<open>l\<close> that hold \<open>totalCount\<close> events),
  \<open>hasNextPage\<close> exactly when \<open>p < totalPages\<close> and \<open>hasPreviousPage\<close> exactly when \<open>p > 1\<close>.
\<close>

theorem getAllEvents_pagination:
  assumes "validatePagination en (case f_page fl of None \<Rightarrow> 1 | Some p \<Rightarrow> p)
             (case f_limit fl of None \<Rightarrow> 20 | Some l \<Rightarrow> l) = (p, l, errs)"
    and "1 \<le> p" and "1 \<le> l"
    and "isValid (getAllEvents en d fl)"
  shows "\<exists>items pg.
           data (getAllEvents en d fl) = Some (EventPage items pg)
         \<and> pg_page pg = p \<and> pg_limit pg = l
         \<and> totalCount pg = length (filter (event_matches en fl) (events d))
         \<and> length items \<le> nat l
         \<and> (\<exists>fld dir. fld \<in> set sort_fields \<and> dir \<in> set [''asc'', ''desc'']
               \<and> map fst items
                  = take (nat l) (drop (nat ((p - 1) * l))
                      (order_rows en fld dir (filter (event_matches en fl) (events d)))))
         \<and> map snd items
            = map (\<lambda>e. if includeEventServices fl then length (lines_of d (event_id e)) else 0)
                (map fst items)
         \<and> totalPages pg = Some \<lceil>(of_nat (totalCount pg) :: rat) / of_int l\<rceil>
         \<and> (\<forall>tp. totalPages pg = Some tp \<longrightarrow>
               int (totalCount pg) \<le> tp * l \<and> (tp - 1) * l < int (totalCount pg)
             \<and> hasNextPage pg = (p < tp))
         \<and> hasPreviousPage pg = (p > 1)"
proof -
  define n where "n = length (filter (event_matches en fl) (events d))"
  define fld where "fld = fst (buildSortOrder (sortBy fl) (sortOrder fl))"
  define dir where "dir = snd (buildSortOrder (sortBy fl) (sortOrder fl))"
  define count :: "event \<Rightarrow> nat" where
    "count = (\<lambda>e. if includeEventServices fl then length (lines_of d (event_id e)) else 0)"
  from getAllEvents_found[OF assms(4) assms(1)]
  obtain found where
    st: "skip_take ((p - 1) * l) l
           (order_rows en fld dir (filter (event_matches en fl) (events d))) = Inr found"
    and dat: "data (getAllEvents en d fl) = Some (EventPage (map (\<lambda>e. (e, count e)) found)
              \<lparr>pg_page = p, pg_limit = l, totalCount = n, totalPages = total_pages n l,
               hasNextPage = page_before p n l, hasPreviousPage = (p > 1)\<rparr>)"
    unfolding n_def fld_def dir_def count_def by blast
  have sk: "0 \<le> (p - 1) * l" using assms(2,3) by simp
  from st sk assms(3) have found:
    "found = take (nat l) (drop (nat ((p - 1) * l))
               (order_rows en fld dir (filter (event_matches en fl) (events d))))"
    by (simp add: skip_take_def)
  have len: "length found \<le> nat l" by (subst found) simp
  have srt: "fld \<in> set sort_fields" "dir \<in> set [''asc'', ''desc'']"
    unfolding fld_def dir_def by (rule buildSortOrder_fields)+
  have l0: "l \<noteq> 0" "0 < l" using assms(3) by auto
  define tp where "tp = \<lceil>(of_nat n :: rat) / of_int l\<rceil>"
  have up: "(of_nat n :: rat) / of_int l \<le> of_int tp" unfolding tp_def by (rule le_of_int_ceiling)
  have lo: "of_int tp - 1 < (of_nat n :: rat) / of_int l" unfolding tp_def by linarith
  have lpos: "(0::rat) < of_int l" using l0 by simp
  from up lpos have "(of_nat n :: rat) \<le> of_int tp * of_int l"
    by (simp add: pos_divide_le_eq)
  then have "(of_int (int n) :: rat) \<le> of_int (tp * l)" by simp
  then have b1: "int n \<le> tp * l" by (simp only: of_int_le_iff)
  from lo lpos have "(of_int tp - 1) * of_int l < (of_nat n :: rat)"
    by (simp add: pos_less_divide_eq)
  then have "(of_int ((tp - 1) * l) :: rat) < of_int (int n)" by simp
  then have b2: "(tp - 1) * l < int n" by (simp only: of_int_less_iff)
  have tps: "total_pages n l = Some tp" using l0 by (simp add: total_pages_def tp_def)
  have nxt: "page_before p n l = (p < tp)" by (simp add: page_before_def tps)
  have fs: "map fst (map (\<lambda>e. (e, count e)) found) = found"
    "map snd (map (\<lambda>e. (e, count e)) found) = map count found"
    by (simp_all add: comp_def)
  have page: "\<exists>fld dir. fld \<in> set sort_fields \<and> dir \<in> set [''asc'', ''desc'']
               \<and> map fst (map (\<lambda>e. (e, count e)) found)
                  = take (nat l) (drop (nat ((p - 1) * l))
                      (order_rows en fld dir (filter (event_matches en fl) (events d))))"
    using srt found unfolding fs by blast
  show ?thesis
    unfolding dat n_def[symmetric] count_def[symmetric]
    using len tps nxt b1 b2 page fs
    by (intro exI[of _ "map (\<lambda>e. (e, count e)) found"]
          exI[of _ "\<lparr>pg_page = p, pg_limit = l, totalCount = n, totalPages = total_pages n l,
               hasNextPage = page_before p n l, hasPreviousPage = (p > 1)\<rparr>"])
       (simp add: tp_def)
qed

lemma three_by_two: "total_pages (Suc (Suc (Suc 0))) 2 = Some 2"
  by (simp add: total_pages_def ceiling_eq_iff)

lemma first_page_value: "getAllEvents permissive three_events first_page
     = createValidationResult True []
         (Some (EventPage [(booked_event, 0), (booked_event\<lparr>event_id := 2\<rparr>, 0)]
            \<lparr>pg_page = 1, pg_limit = 2, totalCount = 3, totalPages = Some 2,
             hasNextPage = True, hasPreviousPage = False\<rparr>))"
  by (simp add: getAllEvents_def first_page_def three_events_def example_defs Let_def
      id_filter_def status_filter_def opt_matches_def start_in_range_def search_matches_def
      skip_take_def buildSortOrder_def page_before_def three_by_two createValidationResult_def)

lemma first_page_matches:
  "filter (event_matches permissive first_page) (events three_events)
   = [booked_event, booked_event\<lparr>event_id := 2\<rparr>, booked_event\<lparr>event_id := 3\<rparr>]"
  by (simp add: event_matches_def wanted_id_def first_page_def three_events_def example_defs)

theorem getAllEvents_pagination_witness:
  "\<exists>items pg.
      data (getAllEvents permissive three_events first_page) = Some (EventPage items pg)
    \<and> map fst items = [booked_event, booked_event\<lparr>event_id := 2\<rparr>]
    \<and> map snd items = [0, 0]
    \<and> totalCount pg = 3 \<and> totalPages pg = Some 2
    \<and> hasNextPage pg \<and> \<not> hasPreviousPage pg"
proof -
  have v: "validatePagination permissive
             (case f_page first_page of None \<Rightarrow> 1 | Some p \<Rightarrow> p)
             (case f_limit first_page of None \<Rightarrow> 20 | Some l \<Rightarrow> l) = (1, 2, [])"
    by (simp add: permissive_def first_page_def)
  have ok: "isValid (getAllEvents permissive three_events first_page)"
    by (simp add: first_page_value createValidationResult_def)
  have ord: "order_rows permissive = (\<lambda>fld dir rows. rows)" by (simp add: permissive_def)
  have inc: "\<not> includeEventServices first_page" by (simp add: first_page_def)
  have "\<exists>items pg.
           data (getAllEvents permissive three_events first_page) = Some (EventPage items pg)
         \<and> pg_page pg = 1 \<and> pg_limit pg = 2
         \<and> totalCount pg
            = length (filter (event_matches permissive first_page) (events three_events))
         \<and> length items \<le> nat 2
         \<and> (\<exists>fld dir. fld \<in> set sort_fields \<and> dir \<in> set [''asc'', ''desc'']
               \<and> map fst items
                  = take (nat 2) (drop (nat ((1 - 1) * 2))
                      (order_rows permissive fld dir
                         (filter (event_matches permissive first_page) (events three_events)))))
         \<and> map snd items
            = map (\<lambda>e. if includeEventServices first_page
                        then length (lines_of three_events (event_id e)) else 0)
                (map fst items)
         \<and> totalPages pg = Some \<lceil>(of_nat (totalCount pg) :: rat) / of_int 2\<rceil>
         \<and> (\<forall>tp. totalPages pg = Some tp \<longrightarrow>
               int (totalCount pg) \<le> tp * 2 \<and> (tp - 1) * 2 < int (totalCount pg)
             \<and> hasNextPage pg = (1 < tp))
         \<and> hasPreviousPage pg = (1 < (1::int))"
    by (rule getAllEvents_pagination[OF v _ _ ok]) simp_all
  then obtain items pg where
    dat: "data (getAllEvents permissive three_events first_page) = Some (EventPage items pg)"
    and cnt: "totalCount pg = length (filter (event_matches permissive first_page)
                (events three_events))"
    and pge: "\<exists>fld dir. fld \<in> set sort_fields \<and> dir \<in> set [''asc'', ''desc'']
               \<and> map fst items
                  = take (nat 2) (drop (nat ((1 - 1) * 2))
                      (order_rows permissive fld dir
                         (filter (event_matches permissive first_page) (events three_events))))"
    and sn: "map snd items
            = map (\<lambda>e. if includeEventServices first_page
                        then length (lines_of three_events (event_id e)) else 0)
                (map fst items)"
    and prv: "hasPreviousPage pg = (1 < (1::int))"
    and tps: "totalPages pg = Some \<lceil>(of_nat (totalCount pg) :: rat) / of_int 2\<rceil>"
    and nx: "\<forall>tp. totalPages pg = Some tp \<longrightarrow>
               int (totalCount pg) \<le> tp * 2 \<and> (tp - 1) * 2 < int (totalCount pg)
             \<and> hasNextPage pg = (1 < tp)"
    by blast
  from cnt have c3: "totalCount pg = 3" by (simp add: first_page_matches)
  from pge have its: "map fst items = [booked_event, booked_event\<lparr>event_id := 2\<rparr>]"
    unfolding ord first_page_matches by auto
  from sn have z: "map snd items = [0, 0]" by (simp add: inc its)
  from tps have t2: "totalPages pg = Some 2" by (simp add: c3 ceiling_eq_iff)
  from nx t2 have "hasNextPage pg" by simp
  with dat c3 its z t2 prv show ?thesis by auto
qed

end
